theory Spec2Isabelle
  imports Complex_Main "HOL-Library.Sublist"
begin

section \<open>Python values used by the transformation-chain app\<close>

text \<open>
  A Python \<^verbatim>\<open>str\<close> is a sequence of Unicode code points and \<^verbatim>\<open>len\<close> counts code
  points, so a string is a list of code points. The values the three stage functions
  return are \<^verbatim>\<open>Optional[str]\<close> (the provider's \<^verbatim>\<open>message.content\<close> and \<^verbatim>\<open>data[0].url\<close>
  may be \<^verbatim>\<open>None\<close>).
\<close>

type_synonym ustring = "nat list"

type_synonym pyval = "ustring option"

definition ascii :: "string \<Rightarrow> ustring" where
  "ascii s = map of_char s"

text \<open>Python truthiness of an \<^verbatim>\<open>Optional[str]\<close>: \<^verbatim>\<open>None\<close> and \<^verbatim>\<open>""\<close> are falsy.\<close>

fun truthy :: "pyval \<Rightarrow> bool" where
  "truthy None = False"
| "truthy (Some s) = (s \<noteq> [])"

subsection \<open>The Korean literals of the source, as code points\<close>

text \<open>\<^verbatim>\<open>"<text generation error>: "\<close>, the prefix of line 44.\<close>

definition text_error :: ustring where
  "text_error = [53581, 49828, 53944, 32, 49373, 49457, 32, 50724, 47448, 58, 32]"

text \<open>\<^verbatim>\<open>"<image generation error>"\<close>, the marker tested by \<^verbatim>\<open>startswith\<close> at lines 132 and 140.\<close>

definition image_error_mark :: ustring where
  "image_error_mark = [51060, 48120, 51648, 32, 49373, 49457, 32, 50724, 47448]"

text \<open>The prefix of line 60: the marker followed by a colon and a space.\<close>

definition image_error :: ustring where
  "image_error = image_error_mark @ [58, 32]"

text \<open>\<^verbatim>\<open>"<image analysis error>: "\<close>, the prefix of line 78.\<close>

definition analysis_error :: ustring where
  "analysis_error = [51060, 48120, 51648, 32, 48516, 49437, 32, 50724, 47448, 58, 32]"

text \<open>The system prompt of line 32, an f-string around the role.\<close>

definition system_prompt :: "ustring \<Rightarrow> ustring" where
  "system_prompt role =
     [45817, 49888, 51008, 32, 39] @ role @
     [39, 32, 50669, 54624, 51077, 45768, 45796, 46, 32, 51452, 50612, 51652, 32, 51452,
      51228, 50640, 32, 45824, 54644, 32, 53, 48, 51088, 32, 45236, 50808, 51032, 32,
      49884, 51201, 51064, 32, 44396, 51208, 51060, 45208, 32, 51687, 51008, 32, 49828,
      53664, 47532, 47484, 32, 49373, 49457, 54616, 49464, 50836, 46, 32, 52285, 51032,
      51201, 51060, 44256, 32, 44048, 49457, 51201, 51064, 32, 54364, 54788, 51012, 32,
      49324, 50857, 54644, 50556, 32, 54633, 45768, 45796, 46]"

text \<open>The user message of line 39: \<^verbatim>\<open>"<topic>: "\<close> followed by the topic.\<close>

definition user_prompt :: "ustring \<Rightarrow> ustring" where
  "user_prompt topic = [51452, 51228, 58, 32] @ topic"

text \<open>The instruction given to the vision model at line 71.\<close>

definition vision_instruction :: ustring where
  "vision_instruction =
     [45817, 49888, 51008, 32, 51204, 47928, 32, 50696, 49696, 32, 48708, 54217, 44032,
      51077, 45768, 45796, 46, 32, 51060, 32, 51060, 48120, 51648, 47484, 32, 48372,
      44256, 32, 45712, 45184, 32, 44163, 51012, 32, 49, 48, 48, 51088, 32, 51060, 45236,
      47196, 32, 51088, 49464, 54616, 44172, 32, 47896, 49324, 54616, 44256, 32, 48516,
      49437, 54644, 32, 51452, 49464, 50836, 46, 32, 49353, 49345, 44, 32, 44396, 46020,
      44, 32, 48516, 50948, 44592, 47484, 32, 47749, 54869, 55176, 32, 50616, 44553,
      54644, 50556, 32, 54633, 45768, 45796, 46]"

text \<open>The default of the topic text input (line 90).\<close>

definition default_topic :: ustring where
  "default_topic = [48120, 47000, 32, 46020, 49884, 51032, 32, 44256, 46021]"

text \<open>The three options of the role select box (line 91); the first is its default.\<close>

datatype role_option = AI_Poet | AI_Storyteller | AI_Philosopher

fun role_label :: "role_option \<Rightarrow> ustring" where
  "role_label AI_Poet = [65, 73, 32, 49884, 51064]"
| "role_label AI_Storyteller = [65, 73, 32, 49828, 53664, 47532, 53588, 47084]"
| "role_label AI_Philosopher = [65, 73, 32, 52384, 54617, 51088]"

section \<open>The hosted provider and the memoizing decorator\<close>

text \<open>
  The requests the three stage functions send through the OpenAI client. A chat message
  is a role with either a plain string or a list of parts (line 70).
\<close>

datatype part = TextPart ustring | ImageUrlPart pyval

datatype content = Plain ustring | Parts "part list"

datatype request =
    ChatCompletions ustring "(ustring \<times> content) list"
  | ImagesGenerate ustring pyval ustring ustring nat

text \<open>
  The provider is outside the program. It is a parameter: given the requests made so
  far and the present request, the body of a \<^verbatim>\<open>try\<close> block either raises (\<open>Inl\<close> of
  \<^verbatim>\<open>str(e)\<close>; this covers \<^verbatim>\<open>client = None\<close> of line 15 and a malformed response) or
  yields the field the function returns (\<open>Inr\<close>).
\<close>

type_synonym client = "request list \<Rightarrow> request \<Rightarrow> ustring + pyval"

text \<open>
  The key under which \<^verbatim>\<open>st.cache_data\<close> stores a result: the decorated function together
  with the values of its arguments.
\<close>

datatype ckey =
    KStart ustring ustring
  | KImage pyval
  | KAnalyze pyval

text \<open>
  What lives outside the session: the log of the requests sent to the provider, the
  \<^verbatim>\<open>st.cache_data\<close> store, which belongs to the server process and not to
  \<^verbatim>\<open>st.session_state\<close>, and the image references that \<^verbatim>\<open>st.image\<close> displays without
  raising (a URL it hands to the browser, a path it can open); for any other reference
  \<^verbatim>\<open>st.image\<close> raises.
\<close>

record world =
  calls :: "request list"
  cache :: "ckey \<rightharpoonup> pyval"
  image_displays :: "ustring \<Rightarrow> bool"

definition call_api :: "client \<Rightarrow> request \<Rightarrow> world \<Rightarrow> (ustring + pyval) \<times> world" where
  "call_api c r w = (c (calls w) r, w\<lparr>calls := calls w @ [r]\<rparr>)"

text \<open>
  \<^verbatim>\<open>@st.cache_data\<close>: a stored entry is returned without running the body; otherwise the
  body runs and whatever it returns is stored. No \<^verbatim>\<open>ttl\<close> or \<^verbatim>\<open>max_entries\<close> is given in the
  source, so an entry is never evicted.
\<close>

definition cache_data :: "ckey \<Rightarrow> (world \<Rightarrow> pyval \<times> world) \<Rightarrow> world \<Rightarrow> pyval \<times> world" where
  "cache_data k body w =
     (case cache w k of
        Some v \<Rightarrow> (v, w)
      | None \<Rightarrow> (case body w of (v, w') \<Rightarrow> (v, w'\<lparr>cache := (cache w')(k \<mapsto> v)\<rparr>)))"

text \<open>
  The shape shared by the three stage functions: the provider is called inside \<^verbatim>\<open>try\<close>,
  and \<^verbatim>\<open>except Exception as e\<close> returns the message prefixed with the stage's error text.
\<close>

definition try_call :: "client \<Rightarrow> request \<Rightarrow> ustring \<Rightarrow> world \<Rightarrow> pyval \<times> world" where
  "try_call c r err w =
     (case call_api c r w of
        (Inr v, w') \<Rightarrow> (v, w')
      | (Inl e, w') \<Rightarrow> (Some (err @ e), w'))"

text \<open>Lines 29-44.\<close>

definition start_request :: "ustring \<Rightarrow> ustring \<Rightarrow> request" where
  "start_request topic role =
     ChatCompletions (ascii ''gpt-4o-mini'')
       [(ascii ''system'', Plain (system_prompt role)),
        (ascii ''user'', Plain (user_prompt topic))]"

definition generate_start_text :: "client \<Rightarrow> ustring \<Rightarrow> ustring \<Rightarrow> world \<Rightarrow> pyval \<times> world" where
  "generate_start_text c topic role =
     cache_data (KStart topic role) (try_call c (start_request topic role) text_error)"

text \<open>Lines 46-60.\<close>

definition image_request :: "pyval \<Rightarrow> request" where
  "image_request prompt =
     ImagesGenerate (ascii ''dall-e-3'') prompt (ascii ''1024x1024'') (ascii ''standard'') 1"

definition generate_image_from_text :: "client \<Rightarrow> pyval \<Rightarrow> world \<Rightarrow> pyval \<times> world" where
  "generate_image_from_text c prompt =
     cache_data (KImage prompt) (try_call c (image_request prompt) image_error)"

text \<open>Lines 62-78.\<close>

definition vision_request :: "pyval \<Rightarrow> request" where
  "vision_request image_url =
     ChatCompletions (ascii ''gpt-4o-mini'')
       [(ascii ''user'', Parts [TextPart vision_instruction, ImageUrlPart image_url])]"

definition analyze_image_to_text :: "client \<Rightarrow> pyval \<Rightarrow> world \<Rightarrow> pyval \<times> world" where
  "analyze_image_to_text c image_url =
     cache_data (KAnalyze image_url) (try_call c (vision_request image_url) analysis_error)"

section \<open>Memoization\<close>

lemma cache_data_hit:
  "cache w k = Some v \<Longrightarrow> cache_data k body w = (v, w)"
  by (simp add: cache_data_def)

lemma cache_data_miss:
  "cache w k = None \<Longrightarrow> body w = (v, w') \<Longrightarrow>
   cache_data k body w = (v, w'\<lparr>cache := (cache w')(k \<mapsto> v)\<rparr>)"
  by (simp add: cache_data_def)

lemma cache_data_twice:
  assumes "cache_data k body w = (v1, w1)"
  shows "cache_data k body w1 = (v1, w1)"
proof (cases "cache w k")
  case (Some v)
  with assms have "v1 = v" "w1 = w" by (simp_all add: cache_data_def)
  with Some show ?thesis by (simp add: cache_data_hit)
next
  case None
  obtain v w' where b: "body w = (v, w')" by (cases "body w")
  from None b assms
  have "v1 = v" and w1: "w1 = w'\<lparr>cache := (cache w')(k \<mapsto> v)\<rparr>"
    by (auto simp add: cache_data_def)
  then have "cache w1 k = Some v1" by simp
  then show ?thesis by (rule cache_data_hit)
qed

lemma cache_data_again: "cache_data k body (snd (cache_data k body w)) = cache_data k body w"
  using cache_data_twice [of k body w] by (cases "cache_data k body w") simp

lemma cache_data_effect:
  assumes "\<And>w. cache (snd (body w)) = cache w"
  shows "cache (snd (cache_data k body w)) = (cache w)(k \<mapsto> fst (cache_data k body w))"
  using assms [of w]
  by (auto simp: cache_data_def map_upd_triv split: option.splits prod.splits)

lemma cache_data_calls:
  assumes "\<And>w. calls (snd (body w)) = calls w @ [r]"
  shows "calls (snd (cache_data k body w)) =
           (if cache w k = None then calls w @ [r] else calls w)"
  using assms [of w]
  by (auto simp: cache_data_def split: option.splits prod.splits)

lemma try_call_cache: "cache (snd (try_call c r err w)) = cache w"
  by (simp add: try_call_def call_api_def split: sum.splits)

lemma try_call_calls: "calls (snd (try_call c r err w)) = calls w @ [r]"
  by (simp add: try_call_def call_api_def split: sum.splits)

lemmas memo_rules =
  cache_data_again cache_data_effect cache_data_calls try_call_cache try_call_calls

section \<open>The session and one run of the script\<close>

text \<open>
  \<^verbatim>\<open>st.session_state\<close> holds the six keys the script assigns and the keys of the two
  sidebar widgets. \<open>step = None\<close> is an absent \<^verbatim>\<open>'step'\<close> key. For the other keys an
  absent key and the value \<^verbatim>\<open>None\<close> (or the empty string of \<open>user_topic\<close>) are one
  state: a key is absent only while \<^verbatim>\<open>'step'\<close> is, and lines 18-24 assign every one of
  them before anything reads it. A widget key is absent until the widget first runs.
\<close>

record session =
  step :: "int option"
  start_text :: pyval
  image_url :: pyval
  final_text :: pyval
  user_topic :: ustring
  start_role :: ustring
  topic_input :: "ustring option"
  role_select :: "role_option option"

text \<open>
  What the user did to trigger a run of the script. \<open>Refresh\<close> is a run with no widget
  change, which is also what \<^verbatim>\<open>st.rerun()\<close> starts. A button returns \<^verbatim>\<open>True\<close> only in the
  run its click triggered.
\<close>

datatype event =
    Refresh
  | EditTopic ustring
  | SelectRole role_option
  | ClickStart
  | ClickReset
  | ClickStep2
  | ClickStep3

text \<open>
  How a run of the script ends: at \<^verbatim>\<open>st.rerun()\<close>, at the end of the file (with the two
  lengths of lines 166-167 when they were computed), or in an uncaught exception.
\<close>

datatype outcome = Rerun | Finished "(nat \<times> nat) option" | Raised

text \<open>The browser stores an edited widget value under the widget's key before the run.\<close>

fun frontend :: "event \<Rightarrow> session \<Rightarrow> session" where
  "frontend (EditTopic t) s = s\<lparr>topic_input := Some t\<rparr>"
| "frontend (SelectRole r) s = s\<lparr>role_select := Some r\<rparr>"
| "frontend ev s = s"

text \<open>Lines 18-24.\<close>

definition init_session :: "session \<Rightarrow> session" where
  "init_session s =
     (if step s = None
      then s\<lparr>step := Some 0, start_text := None, image_url := None, final_text := None,
             user_topic := [], start_role := role_label AI_Poet\<rparr>
      else s)"

text \<open>
  Lines 90-91. A keyed widget returns the value stored under its key, and its default
  (registering the key) when the key is absent.
\<close>

definition sidebar_inputs :: "session \<Rightarrow> session" where
  "sidebar_inputs s =
     (let t = (case topic_input s of None \<Rightarrow> default_topic | Some t \<Rightarrow> t);
          r = (case role_select s of None \<Rightarrow> AI_Poet | Some r \<Rightarrow> r)
      in s\<lparr>topic_input := Some t, role_select := Some r,
            user_topic := t, start_role := role_label r\<rparr>)"

text \<open>Lines 95-98, the body of the start button.\<close>

definition start_workflow :: "session \<Rightarrow> session" where
  "start_workflow s =
     s\<lparr>step := Some 1, start_text := None, image_url := None, final_text := None\<rparr>"

text \<open>
  Lines 101-103, the body of the reset button: every key but \<^verbatim>\<open>'user_topic'\<close> and
  \<^verbatim>\<open>'start_role'\<close> is deleted, the two widget keys among them.
\<close>

definition reset_keys :: "session \<Rightarrow> session" where
  "reset_keys s =
     s\<lparr>step := None, start_text := None, image_url := None, final_text := None,
       topic_input := None, role_select := None\<rparr>"

text \<open>\<^verbatim>\<open>st.session_state.step > 0\<close> of line 100.\<close>

definition step_positive :: "session \<Rightarrow> bool" where
  "step_positive s = (case step s of None \<Rightarrow> False | Some k \<Rightarrow> 0 < k)"

text \<open>\<^verbatim>\<open>url.startswith("<image generation error>")\<close> of lines 132 and 140.\<close>

definition is_image_error :: "pyval \<Rightarrow> bool" where
  "is_image_error v = (case v of None \<Rightarrow> False | Some u \<Rightarrow> prefix image_error_mark u)"

text \<open>
  Lines 166-167, the fourth stage: the two lengths. \<^verbatim>\<open>len(None)\<close> raises \<^verbatim>\<open>TypeError\<close>.
\<close>

definition result_analysis :: "pyval \<Rightarrow> pyval \<Rightarrow> (nat \<times> nat) option" where
  "result_analysis st ft =
     (case st of
        None \<Rightarrow> None
      | Some a \<Rightarrow> (case ft of None \<Rightarrow> None | Some b \<Rightarrow> Some (length a, length b)))"

text \<open>
  Lines 160-171, what the third column shows: nothing while \<^verbatim>\<open>final_text\<close> is falsy,
  otherwise the two lengths.
\<close>

definition shown :: "session \<Rightarrow> outcome" where
  "shown s =
     (if truthy (final_text s)
      then (case result_analysis (start_text s) (final_text s) of
              None \<Rightarrow> Raised
            | Some m \<Rightarrow> Finished (Some m))
      else Finished None)"

text \<open>Lines 153-171, the third column.\<close>

definition col3 :: "client \<Rightarrow> world \<Rightarrow> session \<Rightarrow> world \<times> session \<times> outcome" where
  "col3 c w s =
     (if step s = Some 5
      then (case analyze_image_to_text c (image_url s) w of
              (v, w') \<Rightarrow> (w', s\<lparr>final_text := v, step := Some 6\<rparr>, Rerun))
      else (w, s, shown s))"

text \<open>
  Line 145, \<^verbatim>\<open>st.image(st.session_state.image_url, ...)\<close> inside the \<^verbatim>\<open>try\<close> of line 144:
  \<open>True\<close> when the call returns, \<open>False\<close> when it raises and the handler of line 149
  reports the error.
\<close>

definition st_image :: "world \<Rightarrow> pyval \<Rightarrow> bool" where
  "st_image w v = (case v of None \<Rightarrow> False | Some u \<Rightarrow> image_displays w u)"

text \<open>
  Lines 128-150, the second column. The button of line 146 stands after \<^verbatim>\<open>st.image\<close>
  inside the \<^verbatim>\<open>try\<close> block: it is reached only when \<^verbatim>\<open>st.image\<close> returned.
\<close>

definition col2 :: "client \<Rightarrow> world \<Rightarrow> session \<Rightarrow> event \<Rightarrow> world \<times> session \<times> outcome" where
  "col2 c w s ev =
     (if step s = Some 3
      then (case generate_image_from_text c (start_text s) w of
              (v, w') \<Rightarrow>
                (w', s\<lparr>image_url := v,
                       step := Some (if truthy v \<and> \<not> is_image_error v then 4 else 99)\<rparr>,
                 Rerun))
      else if truthy (image_url s) \<and> \<not> is_image_error (image_url s) \<and>
              st_image w (image_url s) \<and> step s = Some 4 \<and> ev = ClickStep3
      then (w, s\<lparr>step := Some 5\<rparr>, Rerun)
      else col3 c w s)"

text \<open>Lines 113-125, the first column.\<close>

definition col1 :: "client \<Rightarrow> world \<Rightarrow> session \<Rightarrow> event \<Rightarrow> world \<times> session \<times> outcome" where
  "col1 c w s ev =
     (if step s = Some 1
      then (case generate_start_text c (user_topic s) (start_role s) w of
              (v, w') \<Rightarrow> (w', s\<lparr>start_text := v, step := Some 2\<rparr>, Rerun))
      else if truthy (start_text s) \<and> step s = Some 2 \<and> ev = ClickStep2
      then (w, s\<lparr>step := Some 3\<rparr>, Rerun)
      else col2 c w s ev)"

text \<open>Lines 87-104, the sidebar, and then the columns.\<close>

definition sidebar :: "session \<Rightarrow> event \<Rightarrow> session" where
  "sidebar s ev =
     (let s1 = sidebar_inputs s
      in if ev = ClickStart then start_workflow s1 else s1)"

definition script :: "client \<Rightarrow> world \<Rightarrow> session \<Rightarrow> event \<Rightarrow> world \<times> session \<times> outcome" where
  "script c w s ev =
     (let s1 = sidebar (init_session s) ev
      in if step_positive s1 \<and> ev = ClickReset
         then (w, reset_keys s1, Rerun)
         else col1 c w s1 ev)"

text \<open>
  One interaction: the browser's update, the run it triggers, and the runs that
  \<^verbatim>\<open>st.rerun()\<close> starts after it, until a run reaches the end of the file or raises.
\<close>

function rerun_loop :: "client \<Rightarrow> world \<Rightarrow> session \<Rightarrow> event \<Rightarrow> world \<times> session \<times> outcome" where
  "rerun_loop c w s ev =
     (case script c w s ev of
        (w', s', Rerun) \<Rightarrow> rerun_loop c w' s' Refresh
      | r \<Rightarrow> r)"
  by pat_completeness auto

text \<open>
  The loop ends: after the first run an \<^verbatim>\<open>st.rerun()\<close> is reached only at steps 1, 3 and
  5, each of which moves the step to a value that reaches none.
\<close>

definition loop_measure :: "session \<Rightarrow> event \<Rightarrow> nat" where
  "loop_measure s ev =
     (if ev \<noteq> Refresh then 2
      else if step s = Some 1 \<or> step s = Some 3 \<or> step s = Some 5 then 1 else 0)"

lemma shown_not_rerun [simp]: "shown s \<noteq> Rerun"
  by (simp add: shown_def split: option.splits)

lemma col3_rerun:
  "col3 c w s = (w', s', Rerun) \<Longrightarrow> step s = Some 5 \<and> step s' = Some 6"
  by (auto simp: col3_def split: if_splits prod.splits)

lemma col2_rerun:
  "col2 c w s ev = (w', s', Rerun) \<Longrightarrow>
     (step s = Some 3 \<and> (step s' = Some 4 \<or> step s' = Some 99)) \<or>
     (step s = Some 4 \<and> ev = ClickStep3 \<and> step s' = Some 5) \<or>
     (step s = Some 5 \<and> step s' = Some 6)"
  by (auto simp: col2_def dest: col3_rerun split: if_splits prod.splits)

lemma col1_rerun:
  "col1 c w s ev = (w', s', Rerun) \<Longrightarrow>
     (step s = Some 1 \<and> step s' = Some 2) \<or>
     (step s = Some 2 \<and> ev = ClickStep2 \<and> step s' = Some 3) \<or>
     (step s = Some 3 \<and> (step s' = Some 4 \<or> step s' = Some 99)) \<or>
     (step s = Some 4 \<and> ev = ClickStep3 \<and> step s' = Some 5) \<or>
     (step s = Some 5 \<and> step s' = Some 6)"
  by (auto simp: col1_def dest: col2_rerun split: if_splits prod.splits)

lemma step_sidebar_refresh:
  "step (sidebar (init_session s) Refresh) = (if step s = None then Some 0 else step s)"
  by (simp add: sidebar_def init_session_def sidebar_inputs_def Let_def)

lemma script_rerun_measure:
  "script c w s ev = (w', s', Rerun) \<Longrightarrow> loop_measure s' Refresh < loop_measure s ev"
proof (cases "ev = Refresh")
  case False
  then show ?thesis by (simp add: loop_measure_def)
next
  case True
  assume a: "script c w s ev = (w', s', Rerun)"
  let ?s1 = "sidebar (init_session s) Refresh"
  from a True have "col1 c w ?s1 Refresh = (w', s', Rerun)"
    by (simp add: script_def Let_def)
  from col1_rerun [OF this] show ?thesis
    using True by (auto simp: loop_measure_def step_sidebar_refresh split: if_splits)
qed

termination rerun_loop
  apply (relation "measure (\<lambda>(c, w, s, ev). loop_measure s ev)")
   apply simp
  subgoal for c w s ev x y xa ya
    using script_rerun_measure [of c w s ev x xa] by simp
  done

declare rerun_loop.simps [simp del]

definition interact :: "client \<Rightarrow> world \<Rightarrow> session \<Rightarrow> event \<Rightarrow> world \<times> session \<times> outcome" where
  "interact c w s ev = rerun_loop c w (frontend ev s) ev"

text \<open>A sequence of interactions; a run that raised leaves the session as it was.\<close>

fun run_events :: "client \<Rightarrow> world \<times> session \<Rightarrow> event list \<Rightarrow> world \<times> session" where
  "run_events c ws [] = ws"
| "run_events c ws (ev # evs) =
     (case interact c (fst ws) (snd ws) ev of (w', s', out) \<Rightarrow> run_events c (w', s') evs)"

text \<open>
  A browser session that has run nothing yet, and a server that has stored nothing and
  has no image files: on it \<^verbatim>\<open>st.image\<close> displays the strings that begin with
  \<^verbatim>\<open>http://\<close> or \<^verbatim>\<open>https://\<close>, which it hands to the browser as URLs, and raises on
  every other string, which it takes for the path of a file.
\<close>

definition is_url :: "ustring \<Rightarrow> bool" where
  "is_url u = (prefix (ascii ''http://'') u \<or> prefix (ascii ''https://'') u)"

definition fresh_session :: session where
  "fresh_session =
     \<lparr>step = None, start_text = None, image_url = None, final_text = None,
      user_topic = [], start_role = [], topic_input = None, role_select = None\<rparr>"

definition fresh_world :: world where
  "fresh_world = \<lparr>calls = [], cache = Map.empty, image_displays = is_url\<rparr>"

text \<open>
  A call-counting stub provider for concrete runs: the \<open>n\<close>-th request is answered by the
  \<open>n\<close>-th entry of a script, whatever is asked.
\<close>

definition scripted :: "(ustring + pyval) list \<Rightarrow> client" where
  "scripted rs sent r =
     (if length sent < length rs then rs ! length sent else Inl (ascii ''no response''))"

section \<open>What one interaction does\<close>

lemma rerun_loop_rerun:
  "script c w s ev = (w', s', Rerun) \<Longrightarrow> rerun_loop c w s ev = rerun_loop c w' s' Refresh"
  by (subst rerun_loop.simps) simp

lemma rerun_loop_stop:
  "script c w s ev = (w', s', out) \<Longrightarrow> out \<noteq> Rerun \<Longrightarrow> rerun_loop c w s ev = (w', s', out)"
  by (subst rerun_loop.simps) (cases out; simp)

lemmas script_defs = script_def sidebar_def init_session_def sidebar_inputs_def
  start_workflow_def reset_keys_def step_positive_def col1_def col2_def col3_def shown_def
  Let_def

lemma interact_start:
  assumes "generate_start_text c (user_topic (sidebar_inputs (init_session s)))
             (start_role (sidebar_inputs (init_session s))) w = (v, w1)"
  shows "\<exists>s'. interact c w s ClickStart = (w1, s', Finished None) \<and>
           step s' = Some 2 \<and> start_text s' = v \<and> image_url s' = None \<and>
           final_text s' = None \<and>
           user_topic s' = user_topic (sidebar_inputs (init_session s)) \<and>
           start_role s' = start_role (sidebar_inputs (init_session s))"
proof -
  let ?s1 = "sidebar_inputs (init_session s)"
  let ?s2 = "(start_workflow ?s1)\<lparr>start_text := v, step := Some 2\<rparr>"
  have 1: "script c w s ClickStart = (w1, ?s2, Rerun)"
    using assms by (simp add: script_def sidebar_def col1_def start_workflow_def step_positive_def Let_def)
  have 2: "script c w1 ?s2 Refresh = (w1, sidebar_inputs ?s2, Finished None)"
    by (simp add: script_defs)
  have "interact c w s ClickStart = (w1, sidebar_inputs ?s2, Finished None)"
    unfolding interact_def by (simp add: rerun_loop_rerun [OF 1] rerun_loop_stop [OF 2])
  then show ?thesis
    by (simp add: sidebar_inputs_def start_workflow_def init_session_def Let_def split: option.splits)
qed


lemma sidebar_inputs_fields [simp]:
  "step (sidebar_inputs s) = step s"
  "start_text (sidebar_inputs s) = start_text s"
  "image_url (sidebar_inputs s) = image_url s"
  "final_text (sidebar_inputs s) = final_text s"
  by (simp_all add: sidebar_inputs_def Let_def)

lemma init_session_present [simp]: "step s = Some k \<Longrightarrow> init_session s = s"
  by (simp add: init_session_def)

lemma frontend_fields [simp]:
  "step (frontend ev s) = step s"
  "start_text (frontend ev s) = start_text s"
  "image_url (frontend ev s) = image_url s"
  "final_text (frontend ev s) = final_text s"
  by (cases ev; simp)+

lemma shown_cong:
  "start_text s' = start_text s \<Longrightarrow> final_text s' = final_text s \<Longrightarrow> shown s' = shown s"
  by (simp add: shown_def)

lemma script_idle:
  assumes "step s = Some k" "k \<noteq> 1" "k \<noteq> 3" "k \<noteq> 5"
    and "ev \<noteq> ClickStart" "ev \<noteq> ClickReset"
    and "\<not> (k = 2 \<and> ev = ClickStep2 \<and> truthy (start_text s))"
    and "\<not> (k = 4 \<and> ev = ClickStep3 \<and> truthy (image_url s) \<and> \<not> is_image_error (image_url s))"
  shows "script c w s ev = (w, sidebar_inputs s, shown s)"
  using assms
  by (auto simp: script_def sidebar_def col1_def col2_def col3_def shown_def Let_def)

lemma interact_step2:
  assumes "step s = Some 2" "truthy (start_text s)"
    and "generate_image_from_text c (start_text s) w = (v, w1)"
  shows "\<exists>s'. interact c w s ClickStep2 = (w1, s', shown s) \<and>
           step s' = Some (if truthy v \<and> \<not> is_image_error v then 4 else 99) \<and>
           start_text s' = start_text s \<and> image_url s' = v \<and>
           final_text s' = final_text s"
proof -
  let ?s1 = "(sidebar_inputs s)\<lparr>step := Some 3\<rparr>"
  let ?k = "if truthy v \<and> \<not> is_image_error v then 4 else 99 :: int"
  let ?s2 = "(sidebar_inputs ?s1)\<lparr>image_url := v, step := Some ?k\<rparr>"
  have 1: "script c w s ClickStep2 = (w, ?s1, Rerun)"
    using assms by (simp add: script_def sidebar_def col1_def step_positive_def Let_def)
  have 2: "script c w ?s1 Refresh = (w1, ?s2, Rerun)"
    using assms by (simp add: script_def sidebar_def col1_def col2_def step_positive_def Let_def)
  have 3: "script c w1 ?s2 Refresh = (w1, sidebar_inputs ?s2, shown ?s2)"
    by (rule script_idle [where k = ?k]) auto
  have "shown ?s2 = shown s" by (rule shown_cong) simp_all
  with 1 2 3 have "interact c w s ClickStep2 = (w1, sidebar_inputs ?s2, shown s)"
    unfolding interact_def by (simp add: rerun_loop_rerun rerun_loop_stop)
  then show ?thesis by simp
qed

lemma interact_step3:
  assumes "step s = Some 4" "truthy (image_url s)" "\<not> is_image_error (image_url s)"
    and "st_image w (image_url s)"
    and "analyze_image_to_text c (image_url s) w = (v, w1)"
  shows "\<exists>s'. interact c w s ClickStep3 = (w1, s', shown (s\<lparr>final_text := v\<rparr>)) \<and>
           step s' = Some 6 \<and> start_text s' = start_text s \<and>
           image_url s' = image_url s \<and> final_text s' = v"
proof -
  let ?s1 = "(sidebar_inputs s)\<lparr>step := Some 5\<rparr>"
  let ?s2 = "(sidebar_inputs ?s1)\<lparr>final_text := v, step := Some 6\<rparr>"
  have 1: "script c w s ClickStep3 = (w, ?s1, Rerun)"
    using assms by (simp add: script_def sidebar_def col1_def col2_def step_positive_def Let_def)
  have 2: "script c w ?s1 Refresh = (w1, ?s2, Rerun)"
    using assms
    by (simp add: script_def sidebar_def col1_def col2_def col3_def step_positive_def Let_def)
  have 3: "script c w1 ?s2 Refresh = (w1, sidebar_inputs ?s2, shown ?s2)"
    by (rule script_idle [where k = 6]) auto
  have "shown ?s2 = shown (s\<lparr>final_text := v\<rparr>)" by (rule shown_cong) simp_all
  with 1 2 3 have "interact c w s ClickStep3 = (w1, sidebar_inputs ?s2, shown (s\<lparr>final_text := v\<rparr>))"
    unfolding interact_def by (simp add: rerun_loop_rerun rerun_loop_stop)
  then show ?thesis by simp
qed

lemma interact_idle:
  assumes "step s = Some k" "k \<noteq> 1" "k \<noteq> 3" "k \<noteq> 5"
    and "ev \<noteq> ClickStart" "ev \<noteq> ClickReset"
    and "\<not> (k = 2 \<and> ev = ClickStep2 \<and> truthy (start_text s))"
    and "\<not> (k = 4 \<and> ev = ClickStep3 \<and> truthy (image_url s) \<and> \<not> is_image_error (image_url s))"
  shows "interact c w s ev = (w, sidebar_inputs (frontend ev s), shown s)"
proof -
  have "script c w (frontend ev s) ev =
          (w, sidebar_inputs (frontend ev s), shown (frontend ev s))"
    using assms by (intro script_idle [where k = k]) simp_all
  moreover have "shown (frontend ev s) = shown s" by (rule shown_cong) simp_all
  ultimately show ?thesis
    unfolding interact_def by (simp add: rerun_loop_stop)
qed

lemma interact_reset:
  assumes "step s = Some k" "0 < k"
  shows "interact c w s ClickReset =
           (w, \<lparr>step = Some 0, start_text = None, image_url = None, final_text = None,
                user_topic = default_topic, start_role = role_label AI_Poet,
                topic_input = Some default_topic, role_select = Some AI_Poet\<rparr>,
            Finished None)"
proof -
  let ?s1 = "reset_keys (sidebar_inputs s)"
  have 1: "script c w s ClickReset = (w, ?s1, Rerun)"
    using assms by (simp add: script_def sidebar_def step_positive_def Let_def)
  have 2: "script c w ?s1 Refresh = (w, sidebar_inputs (init_session ?s1), Finished None)"
    by (simp add: script_defs)
  have "interact c w s ClickReset = (w, sidebar_inputs (init_session ?s1), Finished None)"
    unfolding interact_def using 1 2 by (simp add: rerun_loop_rerun rerun_loop_stop)
  then show ?thesis
    by (simp add: sidebar_inputs_def init_session_def reset_keys_def Let_def)
qed

section \<open>An invariant of the session\<close>

text \<open>
  \<^verbatim>\<open>final_text\<close> is truthy only at step 6, and from step 3 on \<^verbatim>\<open>start_text\<close> is truthy: the
  only way from step 2 to step 3 is the button inside \<^verbatim>\<open>if st.session_state.start_text\<close>.
\<close>

definition chain_inv :: "session \<Rightarrow> bool" where
  "chain_inv s =
     ((truthy (final_text s) \<longrightarrow> step s = Some 6) \<and>
      (step s = Some 3 \<or> step s = Some 4 \<or> step s = Some 5 \<or> step s = Some 6
         \<longrightarrow> truthy (start_text s)))"

lemma chain_inv_fresh: "chain_inv fresh_session"
  by (simp add: chain_inv_def fresh_session_def)

lemma chain_inv_frontend: "chain_inv (frontend ev s) = chain_inv s"
  by (simp add: chain_inv_def)

lemma chain_inv_sidebar: "chain_inv s \<Longrightarrow> chain_inv (sidebar (init_session s) ev)"
  by (auto simp: chain_inv_def sidebar_def init_session_def start_workflow_def Let_def)

lemma chain_inv_col3:
  "chain_inv s \<Longrightarrow> col3 c w s = (w', s', out) \<Longrightarrow> chain_inv s'"
  by (auto simp: chain_inv_def col3_def split: if_splits prod.splits)

lemma chain_inv_col2:
  "chain_inv s \<Longrightarrow> col2 c w s ev = (w', s', out) \<Longrightarrow> chain_inv s'"
  by (auto simp: col2_def split: if_splits prod.splits dest: chain_inv_col3)
     (auto simp: chain_inv_def)

lemma chain_inv_col1:
  "chain_inv s \<Longrightarrow> col1 c w s ev = (w', s', out) \<Longrightarrow> chain_inv s'"
  by (auto simp: col1_def split: if_splits prod.splits dest: chain_inv_col2)
     (auto simp: chain_inv_def)

lemma chain_inv_reset: "chain_inv (reset_keys s)"
  by (simp add: chain_inv_def reset_keys_def)

lemma chain_inv_script:
  "chain_inv s \<Longrightarrow> script c w s ev = (w', s', out) \<Longrightarrow> chain_inv s'"
  by (auto simp: script_def Let_def chain_inv_reset split: if_splits
      dest: chain_inv_col1 [OF chain_inv_sidebar])

lemma script_finished:
  "script c w s ev = (w', s', out) \<Longrightarrow> out \<noteq> Rerun \<Longrightarrow> w' = w \<and> out = shown s'"
  by (auto simp: script_def col1_def col2_def col3_def Let_def split: if_splits prod.splits)

lemma rerun_loop_inv:
  "chain_inv s \<Longrightarrow> rerun_loop c w s ev = (w', s', out) \<Longrightarrow> chain_inv s' \<and> out = shown s'"
proof (induction c w s ev rule: rerun_loop.induct)
  case (1 c w s ev)
  obtain w1 s1 o1 where sc: "script c w s ev = (w1, s1, o1)" by (cases "script c w s ev")
  have inv1: "chain_inv s1" using chain_inv_script [OF "1.prems"(1) sc] .
  show ?case
  proof (cases "o1 = Rerun")
    case True
    with sc "1.prems"(2) have "rerun_loop c w1 s1 Refresh = (w', s', out)"
      by (simp add: rerun_loop_rerun)
    moreover have "(w1, s1, o1) = script c w s ev" using sc by simp
    ultimately show ?thesis
      using "1.IH" [of w1 "(s1, o1)" s1 o1] True inv1 by simp
  next
    case False
    with sc "1.prems"(2) have "(w', s', out) = (w1, s1, o1)"
      by (simp add: rerun_loop_stop)
    with inv1 script_finished [OF sc False] show ?thesis by simp
  qed
qed

lemma interact_inv:
  "chain_inv s \<Longrightarrow> interact c w s ev = (w', s', out) \<Longrightarrow> chain_inv s' \<and> out = shown s'"
  unfolding interact_def by (rule rerun_loop_inv) (simp_all add: chain_inv_frontend)

lemma run_events_inv:
  "chain_inv (snd ws) \<Longrightarrow> chain_inv (snd (run_events c ws evs))"
proof (induction evs arbitrary: ws)
  case Nil
  then show ?case by simp
next
  case (Cons ev evs)
  obtain w' s' out where i: "interact c (fst ws) (snd ws) ev = (w', s', out)"
    by (cases "interact c (fst ws) (snd ws) ev")
  from interact_inv [OF Cons.prems i] have "chain_inv (snd (w', s'))" by simp
  from Cons.IH [OF this] i show ?case by simp
qed

lemma shown_inv:
  "chain_inv s \<Longrightarrow> shown s =
     (case (start_text s, final_text s) of
        (Some a, Some b) \<Rightarrow> if b = [] then Finished None else Finished (Some (length a, length b))
      | _ \<Rightarrow> Finished None)"
  by (auto simp: chain_inv_def shown_def result_analysis_def split: option.splits)


lemma sidebar_inputs_idem [simp]: "sidebar_inputs (sidebar_inputs s) = sidebar_inputs s"
  by (simp add: sidebar_inputs_def Let_def)

lemma script_finished_stable:
  assumes "script c w s ev = (w', s', out)" "out \<noteq> Rerun"
  shows "script c w' s' Refresh = (w', s', out)"
proof -
  let ?s1 = "sidebar (init_session s) ev"
  from assms have nr: "\<not> (step_positive ?s1 \<and> ev = ClickReset)"
    by (auto simp: script_def Let_def)
  with assms have c1: "col1 c w ?s1 ev = (w', s', out)" by (simp add: script_def Let_def)
  from c1 assms(2) have e: "w' = w" "s' = ?s1" "out = shown ?s1"
    and st: "step ?s1 \<noteq> Some 1" "step ?s1 \<noteq> Some 3" "step ?s1 \<noteq> Some 5"
    by (auto simp: col1_def col2_def col3_def split: if_splits prod.splits)
  from st have ns: "ev \<noteq> ClickStart" by (auto simp: sidebar_def start_workflow_def Let_def)
  then have s1: "?s1 = sidebar_inputs (init_session s)" by (simp add: sidebar_def Let_def)
  obtain k where k: "step ?s1 = Some k"
    unfolding s1 by (cases "step s") (auto simp: init_session_def)
  have "script c w ?s1 Refresh = (w, sidebar_inputs ?s1, shown ?s1)"
    using k st by (intro script_idle [where k = k]) auto
  then show ?thesis using e s1 by simp
qed

lemma rerun_loop_finished:
  "rerun_loop c w s ev = (w', s', out) \<Longrightarrow>
     out \<noteq> Rerun \<and> script c w' s' Refresh = (w', s', out)"
proof (induction c w s ev rule: rerun_loop.induct)
  case (1 c w s ev)
  obtain w1 s1 o1 where sc: "script c w s ev = (w1, s1, o1)" by (cases "script c w s ev")
  show ?case
  proof (cases "o1 = Rerun")
    case True
    with sc "1.prems" have "rerun_loop c w1 s1 Refresh = (w', s', out)"
      by (simp add: rerun_loop_rerun)
    moreover have "(w1, s1, o1) = script c w s ev" using sc by simp
    ultimately show ?thesis
      using "1.IH" [of w1 "(s1, o1)" s1 o1] True by simp
  next
    case False
    with sc "1.prems" have "(w', s', out) = (w1, s1, o1)" by (simp add: rerun_loop_stop)
    with script_finished_stable [OF sc False] False show ?thesis by simp
  qed
qed

lemma interact_finished:
  "interact c w s ev = (w', s', out) \<Longrightarrow>
     out \<noteq> Rerun \<and> script c w' s' Refresh = (w', s', out)"
  unfolding interact_def by (rule rerun_loop_finished)

section \<open>The step only moves forward\<close>

lemma col3_forward:
  "col3 c w s = (w', s', out) \<Longrightarrow> step s = Some k \<Longrightarrow>
     \<exists>k'. step s' = Some k' \<and> (k' = k \<or> (k = 5 \<and> k' = 6)) \<and>
          (w' \<noteq> w \<longrightarrow> k = 5 \<and> k' = 6)"
  by (auto simp: col3_def split: if_splits prod.splits)

lemma col2_forward:
  "col2 c w s ev = (w', s', out) \<Longrightarrow> step s = Some k \<Longrightarrow>
     \<exists>k'. step s' = Some k' \<and>
          (k' = k \<or> (3 \<le> k \<and> k \<le> 5 \<and> k' = k + 1) \<or> (k = 3 \<and> k' = 99)) \<and>
          (w' \<noteq> w \<longrightarrow> (k = 3 \<or> k = 5) \<and> k' \<noteq> k)"
  by (auto simp: col2_def split: if_splits prod.splits dest!: col3_forward)

lemma col1_forward:
  "col1 c w s ev = (w', s', out) \<Longrightarrow> step s = Some k \<Longrightarrow>
     \<exists>k'. step s' = Some k' \<and>
          (k' = k \<or> (1 \<le> k \<and> k \<le> 5 \<and> k' = k + 1) \<or> (k = 3 \<and> k' = 99)) \<and>
          (w' \<noteq> w \<longrightarrow> (k = 1 \<or> k = 3 \<or> k = 5) \<and> k' \<noteq> k)"
  by (auto simp: col1_def split: if_splits prod.splits dest!: col2_forward)

lemma script_forward:
  assumes "script c w s ev = (w', s', out)" "ev \<noteq> ClickStart" "ev \<noteq> ClickReset"
    and "step s = Some k"
  shows "\<exists>k'. step s' = Some k' \<and>
          (k' = k \<or> (1 \<le> k \<and> k \<le> 5 \<and> k' = k + 1) \<or> (k = 3 \<and> k' = 99)) \<and>
          (w' \<noteq> w \<longrightarrow> (k = 1 \<or> k = 3 \<or> k = 5) \<and> k' \<noteq> k)"
proof -
  let ?s1 = "sidebar (init_session s) ev"
  have s1: "?s1 = sidebar_inputs s" using assms by (simp add: sidebar_def Let_def)
  from assms have "col1 c w ?s1 ev = (w', s', out)" by (simp add: script_def Let_def)
  moreover have "step ?s1 = Some k" using assms(4) s1 by simp
  ultimately show ?thesis by (rule col1_forward)
qed

section \<open>Runs of the whole chain\<close>

lemma run_events_append:
  "run_events c ws (xs @ ys) = run_events c (run_events c ws xs) ys"
  by (induction xs arbitrary: ws) (auto split: prod.splits)

lemma stage_miss:
  assumes "cache w k = None" "c (calls w) r = Inr v"
  shows "cache_data k (try_call c r err) w =
           (v, w\<lparr>calls := calls w @ [r], cache := (cache w)(k \<mapsto> v)\<rparr>)"
  using assms by (simp add: cache_data_def try_call_def call_api_def)

lemma stage_miss_error:
  assumes "cache w k = None" "c (calls w) r = Inl e"
  shows "cache_data k (try_call c r err) w =
           (Some (err @ e), w\<lparr>calls := calls w @ [r], cache := (cache w)(k \<mapsto> Some (err @ e))\<rparr>)"
  using assms by (simp add: cache_data_def try_call_def call_api_def)

lemma is_image_error_message [simp]: "is_image_error (Some (image_error @ e))"
  by (simp add: is_image_error_def image_error_def)

lemma interact_fresh:
  assumes "step s = None" "ev \<noteq> ClickStart"
  shows "interact c w s ev = (w, sidebar_inputs (init_session (frontend ev s)), Finished None)"
proof -
  have "script c w (frontend ev s) ev =
          (w, sidebar_inputs (init_session (frontend ev s)), Finished None)"
    using assms
    by (cases ev) (simp_all add: script_defs)
  then show ?thesis unfolding interact_def by (simp add: rerun_loop_stop)
qed

lemma chain_run2:
  assumes g1: "generate_start_text c (user_topic (sidebar_inputs (init_session s)))
                 (start_role (sidebar_inputs (init_session s))) w = (v1, w1)"
    and g2: "generate_image_from_text c v1 w1 = (v2, w2)"
    and ok: "truthy v1" "truthy v2" "\<not> is_image_error v2"
  shows "(\<exists>s1. run_events c (w, s) [ClickStart] = (w1, s1) \<and> step s1 = Some 2 \<and>
            start_text s1 = v1 \<and> image_url s1 = None \<and> final_text s1 = None) \<and>
         (\<exists>s2. run_events c (w, s) [ClickStart, ClickStep2] = (w2, s2) \<and> step s2 = Some 4 \<and>
            start_text s2 = v1 \<and> image_url s2 = v2 \<and> final_text s2 = None)"
proof -
  from interact_start [OF g1] obtain s1 where
    i1: "interact c w s ClickStart = (w1, s1, Finished None)" and
    s1: "step s1 = Some 2" "start_text s1 = v1" "image_url s1 = None" "final_text s1 = None"
    by blast
  from g2 s1 have "generate_image_from_text c (start_text s1) w1 = (v2, w2)" by simp
  from interact_step2 [OF s1(1) _ this] ok s1 obtain s2 where
    i2: "interact c w1 s1 ClickStep2 = (w2, s2, shown s1)" and
    s2: "step s2 = Some 4" "start_text s2 = v1" "image_url s2 = v2" "final_text s2 = None"
    by auto
  have r1: "run_events c (w, s) [ClickStart] = (w1, s1)"
    using i1 by simp
  have r2: "run_events c (w, s) [ClickStart, ClickStep2] = (w2, s2)"
    using i1 i2 by simp
  from r1 r2 s1 s2 show ?thesis by blast
qed

lemma chain_run:
  assumes g1: "generate_start_text c (user_topic (sidebar_inputs (init_session s)))
                 (start_role (sidebar_inputs (init_session s))) w = (v1, w1)"
    and g2: "generate_image_from_text c v1 w1 = (v2, w2)"
    and g3: "analyze_image_to_text c v2 w2 = (v3, w3)"
    and ok: "truthy v1" "truthy v2" "\<not> is_image_error v2" "st_image w2 v2"
  shows "(\<exists>s1. run_events c (w, s) [ClickStart] = (w1, s1) \<and> step s1 = Some 2 \<and>
            start_text s1 = v1 \<and> image_url s1 = None \<and> final_text s1 = None) \<and>
         (\<exists>s2. run_events c (w, s) [ClickStart, ClickStep2] = (w2, s2) \<and> step s2 = Some 4 \<and>
            start_text s2 = v1 \<and> image_url s2 = v2 \<and> final_text s2 = None) \<and>
         (\<exists>s3. run_events c (w, s) [ClickStart, ClickStep2, ClickStep3] = (w3, s3) \<and>
            step s3 = Some 6 \<and> start_text s3 = v1 \<and> image_url s3 = v2 \<and>
            final_text s3 = v3)"
proof -
  from chain_run2 [OF g1 g2 ok(1,2,3)] obtain s1 s2 where
    r1: "run_events c (w, s) [ClickStart] = (w1, s1)" and
    s1: "step s1 = Some 2" "start_text s1 = v1" "image_url s1 = None" "final_text s1 = None" and
    r2: "run_events c (w, s) [ClickStart, ClickStep2] = (w2, s2)" and
    s2: "step s2 = Some 4" "start_text s2 = v1" "image_url s2 = v2" "final_text s2 = None"
    by blast
  from g3 s2 have "analyze_image_to_text c (image_url s2) w2 = (v3, w3)" by simp
  from interact_step3 [OF s2(1) _ _ _ this] ok s2 obtain s3 where
    i3: "interact c w2 s2 ClickStep3 = (w3, s3, shown (s2\<lparr>final_text := v3\<rparr>))" and
    s3: "step s3 = Some 6" "start_text s3 = v1" "image_url s3 = v2" "final_text s3 = v3"
    by auto
  have "run_events c (w, s) ([ClickStart, ClickStep2] @ [ClickStep3]) = (w3, s3)"
    unfolding run_events_append r2 using i3 by simp
  then have r3: "run_events c (w, s) [ClickStart, ClickStep2, ClickStep3] = (w3, s3)"
    by simp
  from r1 r2 r3 s1 s2 s3 show ?thesis by blast
qed

text \<open>
  Sessions that have halted: at step 99 and at step 0 no event but the start button sends
  a request.
\<close>

lemma failed_stays:
  assumes "step s = Some 99" "ClickStart \<notin> set evs" "ClickReset \<notin> set evs"
  shows "fst (run_events c (w, s) evs) = w \<and>
         step (snd (run_events c (w, s) evs)) = Some 99 \<and>
         start_text (snd (run_events c (w, s) evs)) = start_text s \<and>
         image_url (snd (run_events c (w, s) evs)) = image_url s"
  using assms
proof (induction evs arbitrary: s)
  case Nil
  then show ?case by simp
next
  case (Cons ev evs)
  have i: "interact c w s ev = (w, sidebar_inputs (frontend ev s), shown s)"
    using Cons.prems by (intro interact_idle [where k = 99]) auto
  let ?s' = "sidebar_inputs (frontend ev s)"
  have "step ?s' = Some 99" using Cons.prems by simp
  from Cons.IH [OF this] Cons.prems i show ?case by simp
qed

lemma halted_stays:
  assumes "step s = Some 99 \<or> step s = Some 0" "ClickStart \<notin> set evs"
  shows "fst (run_events c (w, s) evs) = w"
  using assms
proof (induction evs arbitrary: s)
  case Nil
  then show ?case by simp
next
  case (Cons ev evs)
  have "\<exists>s' out. interact c w s ev = (w, s', out) \<and> (step s' = Some 99 \<or> step s' = Some 0)"
  proof (cases "ev = ClickReset \<and> step s = Some 99")
    case True
    then show ?thesis
      using interact_reset [of s 99 c w] by simp
  next
    case False
    from Cons.prems(1) obtain k where k: "step s = Some k" "k = 99 \<or> k = 0" by auto
    have "interact c w s ev = (w, sidebar_inputs (frontend ev s), shown s)"
    proof (cases "ev = ClickReset")
      case True
      with False k have k0: "step s = Some 0" by auto
      have "script c w (frontend ev s) ev = (w, sidebar_inputs (frontend ev s), shown s)"
        using True k0 by (simp add: script_defs)
      then show ?thesis unfolding interact_def by (simp add: rerun_loop_stop)
    next
      case False
      then show ?thesis using k Cons.prems(2) by (intro interact_idle [where k = k]) auto
    qed
    then show ?thesis using k by auto
  qed
  then obtain s' out where i: "interact c w s ev = (w, s', out)"
    and s': "step s' = Some 99 \<or> step s' = Some 0" by blast
  from Cons.IH [OF s'] Cons.prems(2) i show ?case by simp
qed

section \<open>Claims about memoization\<close>

text \<open>
  C1. For each of the three stage functions and every input: calling it a second time
  with the same arguments returns the identical artifact and leaves the request log and
  the store as the first call left them, so that the provider is invoked exactly once
  over the two calls when nothing was stored for the arguments before (and not at all
  when something was). The store is keyed by the function together with the values of
  its arguments: the only entry a call writes is the one at that key.
\<close>

theorem stage_call_memoized:
  "(let r = generate_start_text c topic role w in
      generate_start_text c topic role (snd r) = r \<and>
      cache (snd r) = (cache w)(KStart topic role \<mapsto> fst r) \<and>
      calls (snd r) =
        (if cache w (KStart topic role) = None then calls w @ [start_request topic role]
         else calls w)) \<and>
   (let r = generate_image_from_text c prompt w in
      generate_image_from_text c prompt (snd r) = r \<and>
      cache (snd r) = (cache w)(KImage prompt \<mapsto> fst r) \<and>
      calls (snd r) =
        (if cache w (KImage prompt) = None then calls w @ [image_request prompt]
         else calls w)) \<and>
   (let r = analyze_image_to_text c url w in
      analyze_image_to_text c url (snd r) = r \<and>
      cache (snd r) = (cache w)(KAnalyze url \<mapsto> fst r) \<and>
      calls (snd r) =
        (if cache w (KAnalyze url) = None then calls w @ [vision_request url]
         else calls w))"
  unfolding Let_def generate_start_text_def generate_image_from_text_def
    analyze_image_to_text_def
  by (intro conjI memo_rules)

theorem stage_call_memoized_witness:
  "(let r = generate_start_text (scripted [Inr (Some [104, 105])]) [115, 101, 97]
              (role_label AI_Poet) fresh_world
    in fst r = Some [104, 105] \<and>
       generate_start_text (scripted [Inr (Some [104, 105])]) [115, 101, 97]
         (role_label AI_Poet) (snd r) = r \<and>
       calls (snd r) = [start_request [115, 101, 97] (role_label AI_Poet)])"
  using stage_call_memoized [of "scripted [Inr (Some [104, 105])]" "[115, 101, 97]"
      "role_label AI_Poet" fresh_world]
  by (simp add: Let_def fresh_world_def generate_start_text_def cache_data_def
      try_call_def call_api_def scripted_def)

section \<open>A concrete run with a stub provider\<close>

text \<open>\<^verbatim>\<open>"https://img.example/1.png"\<close>, a reference that \<^verbatim>\<open>st.image\<close> hands to the browser.\<close>

definition demo_url :: ustring where
  "demo_url =
     [104, 116, 116, 112, 115, 58, 47, 47, 105, 109, 103, 46, 101, 120, 97, 109, 112, 108,
      101, 47, 49, 46, 112, 110, 103]"

definition demo_client :: client where
  "demo_client =
     scripted [Inr (Some [110, 101, 111, 110]), Inr (Some demo_url),
               Inr (Some [98, 108, 117, 101, 33]), Inr (Some [50]), Inr (Some [51]),
               Inr (Some [52])]"

definition demo_world1 :: world where
  "demo_world1 =
     \<lparr>calls = [start_request default_topic (role_label AI_Poet)],
      cache = [KStart default_topic (role_label AI_Poet) \<mapsto> Some [110, 101, 111, 110]],
      image_displays = is_url\<rparr>"

definition demo_world2 :: world where
  "demo_world2 =
     \<lparr>calls = [start_request default_topic (role_label AI_Poet),
               image_request (Some [110, 101, 111, 110])],
      cache = [KStart default_topic (role_label AI_Poet) \<mapsto> Some [110, 101, 111, 110],
               KImage (Some [110, 101, 111, 110]) \<mapsto> Some demo_url],
      image_displays = is_url\<rparr>"

definition demo_world3 :: world where
  "demo_world3 =
     \<lparr>calls = [start_request default_topic (role_label AI_Poet),
               image_request (Some [110, 101, 111, 110]),
               vision_request (Some demo_url)],
      cache = [KStart default_topic (role_label AI_Poet) \<mapsto> Some [110, 101, 111, 110],
               KImage (Some [110, 101, 111, 110]) \<mapsto> Some demo_url,
               KAnalyze (Some demo_url) \<mapsto> Some [98, 108, 117, 101, 33]],
      image_displays = is_url\<rparr>"

lemma demo_stage1:
  "generate_start_text demo_client default_topic (role_label AI_Poet) fresh_world =
     (Some [110, 101, 111, 110], demo_world1)"
  unfolding generate_start_text_def
  by (subst stage_miss [where v = "Some [110, 101, 111, 110]"])
     (simp_all add: fresh_world_def demo_client_def scripted_def demo_world1_def)

lemma demo_stage2:
  "generate_image_from_text demo_client (Some [110, 101, 111, 110]) demo_world1 =
     (Some demo_url, demo_world2)"
  unfolding generate_image_from_text_def
  by (subst stage_miss [where v = "Some demo_url"])
     (simp_all add: demo_client_def scripted_def demo_world1_def demo_world2_def)

lemma demo_stage3:
  "analyze_image_to_text demo_client (Some demo_url) demo_world2 =
     (Some [98, 108, 117, 101, 33], demo_world3)"
  unfolding analyze_image_to_text_def
  by (subst stage_miss [where v = "Some [98, 108, 117, 101, 33]"])
     (simp_all add: demo_client_def scripted_def demo_world2_def demo_world3_def)

lemma demo_url_nonempty: "demo_url \<noteq> []"
  by (simp add: demo_url_def)

lemma demo_url_truthy: "truthy (Some demo_url)"
  by (simp add: demo_url_def)

lemma demo_not_error: "\<not> is_image_error (Some demo_url)"
  by (simp add: is_image_error_def image_error_mark_def demo_url_def)

lemma demo_url_is_url: "is_url demo_url"
  by (simp add: is_url_def demo_url_def ascii_def)

lemma demo_displays:
  "st_image demo_world2 (Some demo_url)" "st_image demo_world3 (Some demo_url)"
  by (simp_all add: st_image_def demo_world2_def demo_world3_def demo_url_is_url)

lemma http_not_error: "\<not> is_image_error (Some [104, 116, 116, 112])"
  by (simp add: is_image_error_def image_error_mark_def)

lemma fresh_inputs:
  "user_topic (sidebar_inputs (init_session fresh_session)) = default_topic"
  "start_role (sidebar_inputs (init_session fresh_session)) = role_label AI_Poet"
  by (simp_all add: sidebar_inputs_def init_session_def fresh_session_def Let_def
      del: role_label.simps)

lemma demo_chain:
  "(\<exists>s1. run_events demo_client (fresh_world, fresh_session) [ClickStart] =
            (demo_world1, s1) \<and>
          step s1 = Some 2 \<and> start_text s1 = Some [110, 101, 111, 110] \<and>
          image_url s1 = None \<and> final_text s1 = None) \<and>
   (\<exists>s2. run_events demo_client (fresh_world, fresh_session) [ClickStart, ClickStep2] =
            (demo_world2, s2) \<and>
          step s2 = Some 4 \<and> start_text s2 = Some [110, 101, 111, 110] \<and>
          image_url s2 = Some demo_url \<and> final_text s2 = None) \<and>
   (\<exists>s3. run_events demo_client (fresh_world, fresh_session)
            [ClickStart, ClickStep2, ClickStep3] = (demo_world3, s3) \<and>
          step s3 = Some 6 \<and> start_text s3 = Some [110, 101, 111, 110] \<and>
          image_url s3 = Some demo_url \<and> final_text s3 = Some [98, 108, 117, 101, 33])"
  by (rule chain_run)
     (simp_all add: fresh_inputs demo_stage1 demo_stage2 demo_stage3 demo_not_error
        demo_url_nonempty demo_displays del: role_label.simps)

section \<open>Claims about the chain\<close>

text \<open>
  C4. With a topic \<open>t\<close> and a role \<open>r\<close> entered, the start button followed by the two step
  buttons, each stage returning a usable value and \<^verbatim>\<open>st.image\<close> displaying the image (so
  that the third button is there to click), ends at step 6 with the three results in
  place, produced in the order 1, 2, 3: after the first click only the start text
  exists, after the second the image too, after the third the final text, each stage
  run on the previous stage's result. For every event other than the start and reset
  buttons a run of the script leaves the step where it is or moves it to the next one
  (or from 3 to the error step 99), and a request is sent only by a run that leaves
  step 1, 3 or 5.
\<close>

theorem chain_completes_forward:
  assumes "topic_input s = Some t" "role_select s = Some r"
    and "generate_start_text c t (role_label r) w = (v1, w1)"
    and "generate_image_from_text c v1 w1 = (v2, w2)"
    and "analyze_image_to_text c v2 w2 = (v3, w3)"
    and "truthy v1" "truthy v2" "\<not> is_image_error v2" "st_image w2 v2" "truthy v3"
  shows "(\<exists>s1. run_events c (w, s) [ClickStart] = (w1, s1) \<and> step s1 = Some 2 \<and>
            start_text s1 = v1 \<and> image_url s1 = None \<and> final_text s1 = None) \<and>
         (\<exists>s2. run_events c (w, s) [ClickStart, ClickStep2] = (w2, s2) \<and> step s2 = Some 4 \<and>
            start_text s2 = v1 \<and> image_url s2 = v2 \<and> final_text s2 = None) \<and>
         (\<exists>s3. run_events c (w, s) [ClickStart, ClickStep2, ClickStep3] = (w3, s3) \<and>
            step s3 = Some 6 \<and> truthy (start_text s3) \<and> truthy (image_url s3) \<and>
            truthy (final_text s3) \<and>
            start_text s3 = v1 \<and> image_url s3 = v2 \<and> final_text s3 = v3) \<and>
         (\<forall>w s ev w' s' out k.
            script c w s ev = (w', s', out) \<and> ev \<noteq> ClickStart \<and> ev \<noteq> ClickReset \<and>
            step s = Some k \<longrightarrow>
            (\<exists>k'. step s' = Some k' \<and>
               (k' = k \<or> (1 \<le> k \<and> k \<le> 5 \<and> k' = k + 1) \<or> (k = 3 \<and> k' = 99)) \<and>
               (w' \<noteq> w \<longrightarrow> (k = 1 \<or> k = 3 \<or> k = 5) \<and> k' \<noteq> k)))"
proof -
  from assms(1,2) have
    "user_topic (sidebar_inputs (init_session s)) = t"
    "start_role (sidebar_inputs (init_session s)) = role_label r"
    by (simp_all add: sidebar_inputs_def init_session_def Let_def del: role_label.simps)
  with assms(3) have
    "generate_start_text c (user_topic (sidebar_inputs (init_session s)))
       (start_role (sidebar_inputs (init_session s))) w = (v1, w1)" by simp
  from chain_run [OF this assms(4,5,6,7,8,9)] assms(6,7,10)
  have "(\<exists>s1. run_events c (w, s) [ClickStart] = (w1, s1) \<and> step s1 = Some 2 \<and>
            start_text s1 = v1 \<and> image_url s1 = None \<and> final_text s1 = None) \<and>
         (\<exists>s2. run_events c (w, s) [ClickStart, ClickStep2] = (w2, s2) \<and> step s2 = Some 4 \<and>
            start_text s2 = v1 \<and> image_url s2 = v2 \<and> final_text s2 = None) \<and>
         (\<exists>s3. run_events c (w, s) [ClickStart, ClickStep2, ClickStep3] = (w3, s3) \<and>
            step s3 = Some 6 \<and> truthy (start_text s3) \<and> truthy (image_url s3) \<and>
            truthy (final_text s3) \<and>
            start_text s3 = v1 \<and> image_url s3 = v2 \<and> final_text s3 = v3)"
    by auto
  moreover have "\<forall>w s ev w' s' out k.
            script c w s ev = (w', s', out) \<and> ev \<noteq> ClickStart \<and> ev \<noteq> ClickReset \<and>
            step s = Some k \<longrightarrow>
            (\<exists>k'. step s' = Some k' \<and>
               (k' = k \<or> (1 \<le> k \<and> k \<le> 5 \<and> k' = k + 1) \<or> (k = 3 \<and> k' = 99)) \<and>
               (w' \<noteq> w \<longrightarrow> (k = 1 \<or> k = 3 \<or> k = 5) \<and> k' \<noteq> k))"
    using script_forward by blast
  ultimately show ?thesis by blast
qed

theorem chain_completes_forward_witness:
  "topic_input (fresh_session\<lparr>topic_input := Some default_topic, role_select := Some AI_Poet\<rparr>)
     = Some default_topic \<and>
   role_select (fresh_session\<lparr>topic_input := Some default_topic, role_select := Some AI_Poet\<rparr>)
     = Some AI_Poet \<and>
   generate_start_text demo_client default_topic (role_label AI_Poet) fresh_world =
     (Some [110, 101, 111, 110], demo_world1) \<and>
   generate_image_from_text demo_client (Some [110, 101, 111, 110]) demo_world1 =
     (Some demo_url, demo_world2) \<and>
   analyze_image_to_text demo_client (Some demo_url) demo_world2 =
     (Some [98, 108, 117, 101, 33], demo_world3) \<and>
   truthy (Some [110, 101, 111, 110]) \<and> truthy (Some demo_url) \<and>
   \<not> is_image_error (Some demo_url) \<and> st_image demo_world2 (Some demo_url) \<and>
   truthy (Some [98, 108, 117, 101, 33]) \<and>
   (\<exists>s3. run_events demo_client
            (fresh_world, fresh_session\<lparr>topic_input := Some default_topic,
                                         role_select := Some AI_Poet\<rparr>)
            [ClickStart, ClickStep2, ClickStep3] = (demo_world3, s3) \<and>
         step s3 = Some 6 \<and> start_text s3 = Some [110, 101, 111, 110] \<and>
         image_url s3 = Some demo_url \<and>
         final_text s3 = Some [98, 108, 117, 101, 33]) \<and>
   calls demo_world3 =
     [start_request default_topic (role_label AI_Poet),
      image_request (Some [110, 101, 111, 110]),
      vision_request (Some demo_url)]"
proof -
  let ?s = "fresh_session\<lparr>topic_input := Some default_topic, role_select := Some AI_Poet\<rparr>"
  have h: "topic_input ?s = Some default_topic" "role_select ?s = Some AI_Poet"
    "truthy (Some [110, 101, 111, 110])" "truthy (Some [98, 108, 117, 101, 33])"
    by simp_all
  from chain_completes_forward [OF h(1,2) demo_stage1 demo_stage2 demo_stage3 h(3)
      demo_url_truthy demo_not_error demo_displays(1) h(4)]
  have "\<exists>s3. run_events demo_client (fresh_world, ?s) [ClickStart, ClickStep2, ClickStep3] =
               (demo_world3, s3) \<and>
         step s3 = Some 6 \<and> start_text s3 = Some [110, 101, 111, 110] \<and>
         image_url s3 = Some demo_url \<and>
         final_text s3 = Some [98, 108, 117, 101, 33]"
    by blast
  moreover have "calls demo_world3 =
     [start_request default_topic (role_label AI_Poet),
      image_request (Some [110, 101, 111, 110]),
      vision_request (Some demo_url)]"
    by (simp add: demo_world3_def)
  ultimately show ?thesis
    using h demo_stage1 demo_stage2 demo_stage3 demo_not_error demo_url_truthy
      demo_displays(1)
    by blast
qed

text \<open>
  C8, as stated, fails: the fourth stage does not compute the length delta. For the
  start text \<^verbatim>\<open>"neon"\<close> and the final text \<^verbatim>\<open>"blue!"\<close> lines 166-167 compute the two
  lengths 4 and 5; the difference of the two lengths is 1, which is neither of the
  numbers the stage computes.
\<close>

theorem lengths_not_delta_counterexample:
  "result_analysis (Some [110, 101, 111, 110]) (Some [98, 108, 117, 101, 33]) = Some (4, 5) \<and>
   int (length [98 :: nat, 108, 117, 101, 33]) - int (length [110 :: nat, 101, 111, 110]) = 1 \<and>
   int (fst (the (result_analysis (Some [110, 101, 111, 110])
                    (Some [98, 108, 117, 101, 33])))) \<noteq>
     int (length [98 :: nat, 108, 117, 101, 33]) - int (length [110 :: nat, 101, 111, 110]) \<and>
   int (snd (the (result_analysis (Some [110, 101, 111, 110])
                    (Some [98, 108, 117, 101, 33])))) \<noteq>
     int (length [98 :: nat, 108, 117, 101, 33]) - int (length [110 :: nat, 101, 111, 110])"
  by (simp add: result_analysis_def)

text \<open>
  C8, amended. The fourth stage takes the start text and the final text and computes
  their two lengths, which the page shows one under the other; it computes no
  difference. It is a function of the two texts alone: showing the page again in the
  same state gives the same two lengths, sends no request and changes neither the
  store nor the session. In every session reachable from a fresh one it cannot fail:
  whenever the final text is truthy the start text is a string too, so no run of the
  script ends in an exception.
\<close>

theorem length_comparison_cannot_fail:
  assumes "run_events c (w0, fresh_session) evs = (w, s)"
    and "interact c w s ev = (w', s', out)"
  shows "out \<noteq> Raised \<and>
         script c w' s' Refresh = (w', s', out) \<and>
         (truthy (final_text s') \<longrightarrow>
            (\<exists>a b. start_text s' = Some a \<and> final_text s' = Some b \<and>
               result_analysis (start_text s') (final_text s') = Some (length a, length b) \<and>
               out = Finished (Some (length a, length b))))"
proof -
  have "chain_inv (snd (run_events c (w0, fresh_session) evs))"
    by (rule run_events_inv) (simp add: chain_inv_fresh)
  with assms(1) have "chain_inv s" by simp
  from interact_inv [OF this assms(2)] have inv: "chain_inv s'" and out: "out = shown s'"
    by simp_all
  from interact_finished [OF assms(2)] have st: "script c w' s' Refresh = (w', s', out)"
    by simp
  from inv out have "out \<noteq> Raised"
    by (simp add: shown_inv split: option.splits)
  moreover have "\<exists>a b. start_text s' = Some a \<and> final_text s' = Some b \<and>
               result_analysis (start_text s') (final_text s') = Some (length a, length b) \<and>
               out = Finished (Some (length a, length b))"
    if "truthy (final_text s')"
    using that inv out
    by (cases "start_text s'"; cases "final_text s'")
       (auto simp: chain_inv_def shown_def result_analysis_def)
  ultimately show ?thesis using st by blast
qed

theorem length_comparison_cannot_fail_witness:
  "\<exists>w s w' s' out.
     run_events demo_client (fresh_world, fresh_session) [ClickStart, ClickStep2] = (w, s) \<and>
     interact demo_client w s ClickStep3 = (w', s', out) \<and>
     truthy (final_text s') \<and> out \<noteq> Raised \<and> out = Finished (Some (4, 5)) \<and>
     script demo_client w' s' Refresh = (w', s', Finished (Some (4, 5))) \<and>
     calls w' = calls demo_world3"
proof -
  from demo_chain obtain s2 s3 where
    r2: "run_events demo_client (fresh_world, fresh_session) [ClickStart, ClickStep2] =
           (demo_world2, s2)" and
    r3: "run_events demo_client (fresh_world, fresh_session)
           [ClickStart, ClickStep2, ClickStep3] = (demo_world3, s3)" and
    s3: "start_text s3 = Some [110, 101, 111, 110]"
        "final_text s3 = Some [98, 108, 117, 101, 33]"
    by blast
  have "run_events demo_client (fresh_world, fresh_session) ([ClickStart, ClickStep2] @ [ClickStep3])
          = (demo_world3, s3)" using r3 by simp
  then have "run_events demo_client (demo_world2, s2) [ClickStep3] = (demo_world3, s3)"
    unfolding run_events_append r2 .
  then obtain out where i: "interact demo_client demo_world2 s2 ClickStep3 = (demo_world3, s3, out)"
    by (auto split: prod.splits)
  from length_comparison_cannot_fail [OF r2 i] s3
  have "out \<noteq> Raised" "out = Finished (Some (4, 5))"
    "script demo_client demo_world3 s3 Refresh = (demo_world3, s3, out)" by auto
  with r2 i s3 show ?thesis by auto
qed

text \<open>
  C3. At step 2 with a start text, when the step-2 button is clicked and the image
  provider, asked for the first time for this prompt, raises: the request is logged, the
  session goes to step 99 with the error text as image URL and the start text unchanged.
  From then on no sequence of events without the start button sends any request (so
  the vision stage is never invoked), and without the reset button the session stays
  at step 99 with the start text as it was.
\<close>

theorem image_failure_freezes:
  assumes "step s = Some 2" "truthy (start_text s)"
    and "cache w (KImage (start_text s)) = None"
    and "c (calls w) (image_request (start_text s)) = Inl e"
  shows "\<exists>w1 s1 out.
           interact c w s ClickStep2 = (w1, s1, out) \<and>
           calls w1 = calls w @ [image_request (start_text s)] \<and>
           step s1 = Some 99 \<and> start_text s1 = start_text s \<and>
           image_url s1 = Some (image_error @ e) \<and>
           (\<forall>evs. ClickStart \<notin> set evs \<longrightarrow> fst (run_events c (w1, s1) evs) = w1) \<and>
           (\<forall>evs. ClickStart \<notin> set evs \<and> ClickReset \<notin> set evs \<longrightarrow>
              step (snd (run_events c (w1, s1) evs)) = Some 99 \<and>
              start_text (snd (run_events c (w1, s1) evs)) = start_text s)"
proof -
  let ?v = "Some (image_error @ e)"
  let ?w1 = "w\<lparr>calls := calls w @ [image_request (start_text s)],
               cache := (cache w)(KImage (start_text s) \<mapsto> ?v)\<rparr>"
  have g: "generate_image_from_text c (start_text s) w = (?v, ?w1)"
    unfolding generate_image_from_text_def using assms(3,4) by (rule stage_miss_error)
  from interact_step2 [OF assms(1,2) g] obtain s1 where
    i: "interact c w s ClickStep2 = (?w1, s1, shown s)" and
    s1: "step s1 = Some 99" "start_text s1 = start_text s" "image_url s1 = ?v"
    by auto
  have "\<forall>evs. ClickStart \<notin> set evs \<longrightarrow> fst (run_events c (?w1, s1) evs) = ?w1"
    using halted_stays [of s1] s1(1) by blast
  moreover have "\<forall>evs. ClickStart \<notin> set evs \<and> ClickReset \<notin> set evs \<longrightarrow>
              step (snd (run_events c (?w1, s1) evs)) = Some 99 \<and>
              start_text (snd (run_events c (?w1, s1) evs)) = start_text s"
    using failed_stays [OF s1(1)] s1(2) by simp
  moreover have "calls ?w1 = calls w @ [image_request (start_text s)]" by simp
  ultimately show ?thesis using i s1 by blast
qed

definition image_down :: client where
  "image_down = scripted [Inr (Some [110, 101, 111, 110]), Inl [53, 48, 51]]"

lemma image_down_raises:
  "image_down (calls demo_world1) (image_request (Some [110, 101, 111, 110])) = Inl [53, 48, 51]"
  by (simp add: image_down_def scripted_def demo_world1_def)

definition stage1_done :: session where
  "stage1_done =
     \<lparr>step = Some 2, start_text = Some [110, 101, 111, 110], image_url = None,
      final_text = None, user_topic = default_topic, start_role = role_label AI_Poet,
      topic_input = Some default_topic, role_select = Some AI_Poet\<rparr>"

theorem image_failure_freezes_witness:
  "step stage1_done = Some 2 \<and> truthy (start_text stage1_done) \<and>
   cache demo_world1 (KImage (start_text stage1_done)) = None \<and>
   image_down (calls demo_world1) (image_request (start_text stage1_done)) = Inl [53, 48, 51] \<and>
   (\<exists>w1 s1 out.
      interact image_down demo_world1 stage1_done ClickStep2 = (w1, s1, out) \<and>
      step s1 = Some 99 \<and> image_url s1 = Some (image_error @ [53, 48, 51]) \<and>
      run_events image_down (w1, s1) [ClickStep3, Refresh, ClickStep2] =
        (w1, snd (run_events image_down (w1, s1) [ClickStep3, Refresh, ClickStep2])) \<and>
      step (snd (run_events image_down (w1, s1) [ClickStep3, Refresh, ClickStep2])) = Some 99 \<and>
      start_text (snd (run_events image_down (w1, s1) [ClickStep3, Refresh, ClickStep2])) =
        Some [110, 101, 111, 110])"
proof -
  have h: "step stage1_done = Some 2" "truthy (start_text stage1_done)"
    "cache demo_world1 (KImage (start_text stage1_done)) = None"
    "image_down (calls demo_world1) (image_request (start_text stage1_done)) = Inl [53, 48, 51]"
    using image_down_raises by (simp_all add: stage1_done_def demo_world1_def)
  from image_failure_freezes [of stage1_done demo_world1 image_down "[53, 48, 51]", OF h]
  obtain w1 s1 out where
    i: "interact image_down demo_world1 stage1_done ClickStep2 = (w1, s1, out)"
       "step s1 = Some 99" "image_url s1 = Some (image_error @ [53, 48, 51])" and
    a: "\<forall>evs. ClickStart \<notin> set evs \<longrightarrow> fst (run_events image_down (w1, s1) evs) = w1" and
    b: "\<forall>evs. ClickStart \<notin> set evs \<and> ClickReset \<notin> set evs \<longrightarrow>
              step (snd (run_events image_down (w1, s1) evs)) = Some 99 \<and>
              start_text (snd (run_events image_down (w1, s1) evs)) = start_text stage1_done"
    by blast
  let ?evs = "[ClickStep3, Refresh, ClickStep2]"
  have n: "ClickStart \<notin> set ?evs" "ClickReset \<notin> set ?evs" by simp_all
  from a n have "fst (run_events image_down (w1, s1) ?evs) = w1" by blast
  then have "run_events image_down (w1, s1) ?evs = (w1, snd (run_events image_down (w1, s1) ?evs))"
    by (metis prod.collapse)
  moreover have st: "start_text stage1_done = Some [110, 101, 111, 110]"
    by (simp add: stage1_done_def)
  from b n have "step (snd (run_events image_down (w1, s1) ?evs)) = Some 99"
    "start_text (snd (run_events image_down (w1, s1) ?evs)) = start_text stage1_done"
    by blast+
  then have "step (snd (run_events image_down (w1, s1) ?evs)) = Some 99"
    "start_text (snd (run_events image_down (w1, s1) ?evs)) = Some [110, 101, 111, 110]"
    unfolding st .
  ultimately show ?thesis using h i by blast
qed

text \<open>A provider whose first call raises and whose second call answers.\<close>

definition text_down :: client where
  "text_down = scripted [Inl [53, 48, 51], Inr (Some [104, 116, 116, 112])]"

text \<open>
  C2. The first stage is not gated. With a provider whose chat call raises, the start
  button stores the error text as start text and goes to step 2 all the same; the step-2
  button then sends the image request with that error text as its prompt.
\<close>

theorem stage1_failure_not_gated:
  "text_down (calls fresh_world) (start_request default_topic (role_label AI_Poet)) =
     Inl [53, 48, 51] \<and>
   start_text (snd (run_events text_down (fresh_world, fresh_session) [ClickStart])) =
     Some (text_error @ [53, 48, 51]) \<and>
   step (snd (run_events text_down (fresh_world, fresh_session) [ClickStart])) = Some 2 \<and>
   calls (fst (run_events text_down (fresh_world, fresh_session) [ClickStart, ClickStep2])) =
     [start_request default_topic (role_label AI_Poet),
      image_request (Some (text_error @ [53, 48, 51]))] \<and>
   step (snd (run_events text_down (fresh_world, fresh_session) [ClickStart, ClickStep2])) =
     Some 4"
proof -
  let ?e = "Some (text_error @ [53, 48, 51])"
  let ?r1 = "start_request default_topic (role_label AI_Poet)"
  let ?w1 = "fresh_world\<lparr>calls := calls fresh_world @ [?r1],
               cache := (cache fresh_world)(KStart default_topic (role_label AI_Poet) \<mapsto> ?e)\<rparr>"
  let ?w2 = "?w1\<lparr>calls := calls ?w1 @ [image_request ?e],
               cache := (cache ?w1)(KImage ?e \<mapsto> Some [104, 116, 116, 112])\<rparr>"
  have c1: "text_down (calls fresh_world) ?r1 = Inl [53, 48, 51]"
    by (simp add: text_down_def scripted_def fresh_world_def)
  have g1: "generate_start_text text_down default_topic (role_label AI_Poet) fresh_world = (?e, ?w1)"
    unfolding generate_start_text_def
    by (rule stage_miss_error [where e = "[53, 48, 51]"]) (simp add: fresh_world_def, rule c1)
  have g2: "generate_image_from_text text_down ?e ?w1 = (Some [104, 116, 116, 112], ?w2)"
    unfolding generate_image_from_text_def
    by (rule stage_miss [where v = "Some [104, 116, 116, 112]"])
       (simp_all add: fresh_world_def text_down_def scripted_def)
  have ok: "truthy ?e" "truthy (Some [104, 116, 116, 112])"
    by (simp_all add: text_error_def)
  from chain_run2 [of text_down fresh_session fresh_world, unfolded fresh_inputs,
      OF g1 g2 ok http_not_error]
  obtain s1 s2 where
    "run_events text_down (fresh_world, fresh_session) [ClickStart] = (?w1, s1)"
    "step s1 = Some 2" "start_text s1 = ?e"
    "run_events text_down (fresh_world, fresh_session) [ClickStart, ClickStep2] = (?w2, s2)"
    "step s2 = Some 4"
    by blast
  moreover have "calls ?w2 = [?r1, image_request ?e]" by (simp add: fresh_world_def)
  ultimately show ?thesis using c1 by simp
qed

lemma reset_session_inputs:
  "user_topic (sidebar_inputs (init_session
     \<lparr>step = Some 0, start_text = None, image_url = None, final_text = None,
      user_topic = default_topic, start_role = role_label AI_Poet,
      topic_input = Some default_topic, role_select = Some AI_Poet\<rparr>)) = default_topic"
  "start_role (sidebar_inputs (init_session
     \<lparr>step = Some 0, start_text = None, image_url = None, final_text = None,
      user_topic = default_topic, start_role = role_label AI_Poet,
      topic_input = Some default_topic, role_select = Some AI_Poet\<rparr>)) = role_label AI_Poet"
  by (simp_all add: sidebar_inputs_def init_session_def Let_def del: role_label.simps)

lemma demo_hits:
  "generate_start_text demo_client default_topic (role_label AI_Poet) demo_world2 =
     (Some [110, 101, 111, 110], demo_world2)"
  "generate_image_from_text demo_client (Some [110, 101, 111, 110]) demo_world2 =
     (Some demo_url, demo_world2)"
  unfolding generate_start_text_def generate_image_from_text_def
  by (rule cache_data_hit, simp add: demo_world2_def)+

text \<open>
  C5, as stated, fails. The first two stages, the reset button, and the first two stages
  again with the same topic and role: the request log after the second run is the log
  after the first, two requests in all, and the second run shows the artifacts of the
  first although the stub would have answered a new request differently. (The run stops
  before the third stage, so it does not depend on what \<^verbatim>\<open>st.image\<close> does.)
\<close>

theorem reset_keeps_cache_counterexample:
  "calls (fst (run_events demo_client (fresh_world, fresh_session)
            [ClickStart, ClickStep2, ClickReset, ClickStart, ClickStep2])) =
     calls (fst (run_events demo_client (fresh_world, fresh_session)
            [ClickStart, ClickStep2])) \<and>
   length (calls (fst (run_events demo_client (fresh_world, fresh_session)
            [ClickStart, ClickStep2, ClickReset, ClickStart, ClickStep2]))) = 2 \<and>
   start_text (snd (run_events demo_client (fresh_world, fresh_session)
            [ClickStart, ClickStep2, ClickReset, ClickStart, ClickStep2])) =
     Some [110, 101, 111, 110] \<and>
   image_url (snd (run_events demo_client (fresh_world, fresh_session)
            [ClickStart, ClickStep2, ClickReset, ClickStart, ClickStep2])) = Some demo_url \<and>
   demo_client (calls demo_world2) (start_request default_topic (role_label AI_Poet)) =
     Inr (Some [98, 108, 117, 101, 33])"
proof -
  let ?s0 = "\<lparr>step = Some 0, start_text = None, image_url = None, final_text = None,
      user_topic = default_topic, start_role = role_label AI_Poet,
      topic_input = Some default_topic, role_select = Some AI_Poet\<rparr>"
  from demo_chain obtain s2 where
    r2: "run_events demo_client (fresh_world, fresh_session) [ClickStart, ClickStep2] =
           (demo_world2, s2)" and
    s2: "step s2 = Some 4"
    by blast
  have i: "interact demo_client demo_world2 s2 ClickReset = (demo_world2, ?s0, Finished None)"
    using interact_reset [OF s2] by simp
  from chain_run2 [of demo_client ?s0 demo_world2, unfolded reset_session_inputs,
      OF demo_hits _ demo_url_truthy demo_not_error]
  obtain s5 where
    r5: "run_events demo_client (demo_world2, ?s0) [ClickStart, ClickStep2] =
           (demo_world2, s5)" and
    s5: "start_text s5 = Some [110, 101, 111, 110]" "image_url s5 = Some demo_url"
    by auto
  have "run_events demo_client (fresh_world, fresh_session)
          ([ClickStart, ClickStep2] @ [ClickReset] @ [ClickStart, ClickStep2]) =
          (demo_world2, s5)"
    unfolding run_events_append r2 using i r5 by simp
  then have r7: "run_events demo_client (fresh_world, fresh_session)
            [ClickStart, ClickStep2, ClickReset, ClickStart, ClickStep2] = (demo_world2, s5)"
    by simp
  have "demo_client (calls demo_world2) (start_request default_topic (role_label AI_Poet)) =
     Inr (Some [98, 108, 117, 101, 33])"
    by (simp add: demo_client_def scripted_def demo_world2_def)
  then show ?thesis
    unfolding r7 r2 using s5 by (simp add: demo_world2_def)
qed

text \<open>
  C5, amended. The reset button empties the session (step 0, no start text, image or
  final text) and leaves the request log and every stored entry as they were. When the
  store holds the three results for a topic and role (and \<^verbatim>\<open>st.image\<close> displays the stored
  image, so that the third button is there to click), entering that topic and role
  again and clicking through the chain shows the stored artifacts and sends no request.
\<close>

theorem reset_keeps_cache:
  assumes "step s = Some k" "0 < k"
    and "cache w (KStart t (role_label r)) = Some v1"
    and "cache w (KImage v1) = Some v2"
    and "cache w (KAnalyze v2) = Some v3"
    and "truthy v1" "truthy v2" "\<not> is_image_error v2" "st_image w v2"
  shows "\<exists>s0 s3.
           interact c w s ClickReset = (w, s0, Finished None) \<and>
           step s0 = Some 0 \<and> start_text s0 = None \<and> image_url s0 = None \<and>
           final_text s0 = None \<and>
           run_events c (w, s0) [EditTopic t, SelectRole r, ClickStart, ClickStep2, ClickStep3]
             = (w, s3) \<and>
           step s3 = Some 6 \<and> start_text s3 = v1 \<and> image_url s3 = v2 \<and> final_text s3 = v3"
proof -
  let ?s0 = "\<lparr>step = Some 0, start_text = None, image_url = None, final_text = None,
      user_topic = default_topic, start_role = role_label AI_Poet,
      topic_input = Some default_topic, role_select = Some AI_Poet\<rparr>"
  let ?sa = "sidebar_inputs (frontend (EditTopic t) ?s0)"
  let ?sb = "sidebar_inputs (frontend (SelectRole r) ?sa)"
  have i0: "interact c w s ClickReset = (w, ?s0, Finished None)"
    using interact_reset [OF assms(1,2)] by simp
  have ia: "interact c w ?s0 (EditTopic t) = (w, ?sa, shown ?s0)"
    by (rule interact_idle [where k = 0]) simp_all
  have ib: "interact c w ?sa (SelectRole r) = (w, ?sb, shown ?sa)"
    by (rule interact_idle [where k = 0]) simp_all
  have inp: "user_topic (sidebar_inputs (init_session ?sb)) = t"
    "start_role (sidebar_inputs (init_session ?sb)) = role_label r"
    by (simp_all add: sidebar_inputs_def init_session_def Let_def del: role_label.simps)
  have g1: "generate_start_text c t (role_label r) w = (v1, w)"
    unfolding generate_start_text_def using assms(3) by (rule cache_data_hit)
  have g2: "generate_image_from_text c v1 w = (v2, w)"
    unfolding generate_image_from_text_def using assms(4) by (rule cache_data_hit)
  have g3: "analyze_image_to_text c v2 w = (v3, w)"
    unfolding analyze_image_to_text_def using assms(5) by (rule cache_data_hit)
  from chain_run [of c ?sb w, unfolded inp, OF g1 g2 g3 assms(6,7,8,9)]
  obtain s3 where
    r: "run_events c (w, ?sb) [ClickStart, ClickStep2, ClickStep3] = (w, s3)" and
    s3: "step s3 = Some 6" "start_text s3 = v1" "image_url s3 = v2" "final_text s3 = v3"
    by blast
  have "run_events c (w, ?s0)
          ([EditTopic t, SelectRole r] @ [ClickStart, ClickStep2, ClickStep3]) = (w, s3)"
    unfolding run_events_append using ia ib r by simp
  then have "run_events c (w, ?s0)
          [EditTopic t, SelectRole r, ClickStart, ClickStep2, ClickStep3] = (w, s3)"
    by simp
  with i0 s3 show ?thesis by (intro exI [of _ ?s0] exI [of _ s3]) simp
qed

definition chain_done :: session where
  "chain_done =
     \<lparr>step = Some 6, start_text = Some [110, 101, 111, 110],
      image_url = Some demo_url, final_text = Some [98, 108, 117, 101, 33],
      user_topic = default_topic, start_role = role_label AI_Poet,
      topic_input = Some default_topic, role_select = Some AI_Poet\<rparr>"

theorem reset_keeps_cache_witness:
  "step chain_done = Some 6 \<and> (0 :: int) < 6 \<and>
   cache demo_world3 (KStart default_topic (role_label AI_Poet)) = Some (Some [110, 101, 111, 110]) \<and>
   cache demo_world3 (KImage (Some [110, 101, 111, 110])) = Some (Some demo_url) \<and>
   cache demo_world3 (KAnalyze (Some demo_url)) = Some (Some [98, 108, 117, 101, 33]) \<and>
   truthy (Some [110, 101, 111, 110]) \<and> truthy (Some demo_url) \<and>
   \<not> is_image_error (Some demo_url) \<and> st_image demo_world3 (Some demo_url) \<and>
   (\<exists>s0 s3.
      interact demo_client demo_world3 chain_done ClickReset = (demo_world3, s0, Finished None) \<and>
      step s0 = Some 0 \<and> start_text s0 = None \<and>
      run_events demo_client (demo_world3, s0)
        [EditTopic default_topic, SelectRole AI_Poet, ClickStart, ClickStep2, ClickStep3]
        = (demo_world3, s3) \<and>
      step s3 = Some 6 \<and> final_text s3 = Some [98, 108, 117, 101, 33])"
proof -
  have h: "step chain_done = Some 6" "(0 :: int) < 6"
    "cache demo_world3 (KStart default_topic (role_label AI_Poet)) = Some (Some [110, 101, 111, 110])"
    "cache demo_world3 (KImage (Some [110, 101, 111, 110])) = Some (Some demo_url)"
    "cache demo_world3 (KAnalyze (Some demo_url)) = Some (Some [98, 108, 117, 101, 33])"
    "truthy (Some [110, 101, 111, 110])"
    by (simp_all add: chain_done_def demo_world3_def)
  from reset_keeps_cache [of chain_done 6 demo_world3 default_topic AI_Poet
      "Some [110, 101, 111, 110]" "Some demo_url" "Some [98, 108, 117, 101, 33]"
      demo_client, OF h demo_url_truthy demo_not_error demo_displays(2)]
  have "\<exists>s0 s3.
      interact demo_client demo_world3 chain_done ClickReset = (demo_world3, s0, Finished None) \<and>
      step s0 = Some 0 \<and> start_text s0 = None \<and>
      run_events demo_client (demo_world3, s0)
        [EditTopic default_topic, SelectRole AI_Poet, ClickStart, ClickStep2, ClickStep3]
        = (demo_world3, s3) \<and>
      step s3 = Some 6 \<and> final_text s3 = Some [98, 108, 117, 101, 33]"
    by blast
  with h demo_not_error demo_url_truthy demo_displays(2) show ?thesis by blast
qed

text \<open>
  C6. The reset button keeps the two keys \<^verbatim>\<open>'user_topic'\<close> and \<^verbatim>\<open>'start_role'\<close>, but the run it
  starts finds \<^verbatim>\<open>'step'\<close> absent and lines 23-24 overwrite both; the two widget keys were
  deleted, so lines 90-91 then assign the widgets' defaults. A user who typed a topic,
  chose the philosopher role and started the chain has, after the reset, the default
  topic and the poet role.
\<close>

theorem reset_loses_topic:
  "user_topic (snd (run_events demo_client (fresh_world, fresh_session)
      [EditTopic [115, 101, 97], SelectRole AI_Philosopher, ClickStart])) = [115, 101, 97] \<and>
   start_role (snd (run_events demo_client (fresh_world, fresh_session)
      [EditTopic [115, 101, 97], SelectRole AI_Philosopher, ClickStart]))
     = role_label AI_Philosopher \<and>
   step (snd (run_events demo_client (fresh_world, fresh_session)
      [EditTopic [115, 101, 97], SelectRole AI_Philosopher, ClickStart])) = Some 2 \<and>
   user_topic (snd (run_events demo_client (fresh_world, fresh_session)
      [EditTopic [115, 101, 97], SelectRole AI_Philosopher, ClickStart, ClickReset]))
     = default_topic \<and>
   start_role (snd (run_events demo_client (fresh_world, fresh_session)
      [EditTopic [115, 101, 97], SelectRole AI_Philosopher, ClickStart, ClickReset]))
     = role_label AI_Poet \<and>
   step (snd (run_events demo_client (fresh_world, fresh_session)
      [EditTopic [115, 101, 97], SelectRole AI_Philosopher, ClickStart, ClickReset])) = Some 0 \<and>
   default_topic \<noteq> [115, 101, 97] \<and>
   role_label AI_Poet \<noteq> role_label AI_Philosopher \<and>
   user_topic (reset_keys s) = user_topic s \<and>
   start_role (reset_keys s) = start_role s \<and>
   user_topic (init_session (reset_keys s)) = [] \<and>
   start_role (init_session (reset_keys s)) = role_label AI_Poet"
proof -
  let ?sea = "[115, 101, 97] :: ustring"
  let ?sa = "sidebar_inputs (init_session (frontend (EditTopic ?sea) fresh_session))"
  let ?sb = "sidebar_inputs (frontend (SelectRole AI_Philosopher) ?sa)"
  let ?w1 = "fresh_world\<lparr>calls := calls fresh_world @ [start_request ?sea (role_label AI_Philosopher)],
      cache := (cache fresh_world)(KStart ?sea (role_label AI_Philosopher) \<mapsto> Some [110, 101, 111, 110])\<rparr>"
  let ?s0 = "\<lparr>step = Some 0, start_text = None, image_url = None, final_text = None,
      user_topic = default_topic, start_role = role_label AI_Poet,
      topic_input = Some default_topic, role_select = Some AI_Poet\<rparr>"
  have ia: "interact demo_client fresh_world fresh_session (EditTopic ?sea) =
              (fresh_world, ?sa, Finished None)"
    by (rule interact_fresh) (simp_all add: fresh_session_def)
  have sa: "step ?sa = Some 0" by (simp add: init_session_def fresh_session_def)
  have ib: "interact demo_client fresh_world ?sa (SelectRole AI_Philosopher) =
              (fresh_world, ?sb, shown ?sa)"
    using sa by (intro interact_idle [where k = 0]) simp_all
  have inp: "user_topic (sidebar_inputs (init_session ?sb)) = ?sea"
    "start_role (sidebar_inputs (init_session ?sb)) = role_label AI_Philosopher"
    by (simp_all add: sidebar_inputs_def init_session_def fresh_session_def Let_def
        del: role_label.simps)
  have g1: "generate_start_text demo_client ?sea (role_label AI_Philosopher) fresh_world =
              (Some [110, 101, 111, 110], ?w1)"
    unfolding generate_start_text_def
    by (rule stage_miss) (simp_all add: fresh_world_def demo_client_def scripted_def)
  from interact_start [of demo_client ?sb fresh_world, unfolded inp, OF g1]
  obtain sc where
    ic: "interact demo_client fresh_world ?sb ClickStart = (?w1, sc, Finished None)" and
    sc: "step sc = Some 2" "user_topic sc = ?sea" "start_role sc = role_label AI_Philosopher"
    by blast
  have ir: "interact demo_client ?w1 sc ClickReset = (?w1, ?s0, Finished None)"
    using interact_reset [OF sc(1)] by simp
  have r3: "run_events demo_client (fresh_world, fresh_session)
      [EditTopic ?sea, SelectRole AI_Philosopher, ClickStart] = (?w1, sc)"
    using ia ib ic by simp
  have "run_events demo_client (fresh_world, fresh_session)
      ([EditTopic ?sea, SelectRole AI_Philosopher, ClickStart] @ [ClickReset]) = (?w1, ?s0)"
    unfolding run_events_append r3 using ir by simp
  then have r4: "run_events demo_client (fresh_world, fresh_session)
      [EditTopic ?sea, SelectRole AI_Philosopher, ClickStart, ClickReset] = (?w1, ?s0)"
    by simp
  have d: "default_topic \<noteq> ?sea" "role_label AI_Poet \<noteq> role_label AI_Philosopher"
    by (simp_all add: default_topic_def)
  have k: "user_topic (reset_keys s) = user_topic s" "start_role (reset_keys s) = start_role s"
    "user_topic (init_session (reset_keys s)) = []"
    "start_role (init_session (reset_keys s)) = role_label AI_Poet"
    by (simp_all add: reset_keys_def init_session_def del: role_label.simps)
  show ?thesis unfolding r3 r4 using sc d k by simp
qed

section \<open>The museum dashboard: searching the collection\<close>

text \<open>A parsed JSON value, as \<^verbatim>\<open>response.json()\<close> returns it.\<close>

datatype json =
    JNull
  | JBool bool
  | JInt int
  | JReal real
  | JString ustring
  | JArray "json list"
  | JObject "(ustring \<times> json) list"

text \<open>The exceptions that can arise inside the \<^verbatim>\<open>try\<close> block of \<^verbatim>\<open>search_artworks\<close>.\<close>

datatype py_exn =
    RequestException ustring
  | HTTPError nat
  | JSONDecodeError
  | AttributeError
  | TypeError

text \<open>
  What \<^verbatim>\<open>requests.get\<close> gives back: the status code and the outcome of \<^verbatim>\<open>response.json()\<close>.
  The network is a parameter: a URL is answered by a response or by an exception.
\<close>

record response =
  status_code :: nat
  json_result :: "py_exn + json"

type_synonym http = "ustring \<Rightarrow> py_exn + response"

definition raise_for_status :: "response \<Rightarrow> py_exn + unit" where
  "raise_for_status r =
     (if 400 \<le> status_code r \<and> status_code r < 600 then Inl (HTTPError (status_code r))
      else Inr ())"

text \<open>\<^verbatim>\<open>data.get(key, default)\<close>: only a dict has the method.\<close>

definition dict_get :: "json \<Rightarrow> ustring \<Rightarrow> json \<Rightarrow> py_exn + json" where
  "dict_get d key dflt =
     (case d of
        JObject kvs \<Rightarrow> Inr (case map_of kvs key of None \<Rightarrow> dflt | Some v \<Rightarrow> v)
      | _ \<Rightarrow> Inl AttributeError)"

text \<open>
  \<^verbatim>\<open>v[:10]\<close>: a list and a string are sliced; \<^verbatim>\<open>None\<close>, a number and a boolean are not
  subscriptable, and a dict rejects a slice as key.
\<close>

definition slice10 :: "json \<Rightarrow> py_exn + json" where
  "slice10 v =
     (case v of
        JArray xs \<Rightarrow> Inr (JArray (take 10 xs))
      | JString s \<Rightarrow> Inr (JString (take 10 s))
      | _ \<Rightarrow> Inl TypeError)"

definition MET_API_URL :: ustring where
  "MET_API_URL = ascii ''https://collectionapi.metmuseum.org/public/collection/v1/''"

definition search_url :: "ustring \<Rightarrow> ustring" where
  "search_url query = MET_API_URL @ ascii ''search?q='' @ query @ ascii ''&hasImages=true&limit=20''"

text \<open>Sequencing of steps that may raise.\<close>

definition and_then :: "'e + 'a \<Rightarrow> ('a \<Rightarrow> 'e + 'b) \<Rightarrow> 'e + 'b" where
  "and_then m f = (case m of Inl e \<Rightarrow> Inl e | Inr x \<Rightarrow> f x)"

text \<open>Lines 204-207, the body of the \<^verbatim>\<open>try\<close> block.\<close>

definition search_try :: "http \<Rightarrow> ustring \<Rightarrow> py_exn + (json \<times> json)" where
  "search_try get query =
     and_then (get (search_url query)) (\<lambda>resp.
     and_then (raise_for_status resp) (\<lambda>_.
     and_then (json_result resp) (\<lambda>data.
     and_then (dict_get data (ascii ''total'') (JInt 0)) (\<lambda>total.
     and_then (dict_get data (ascii ''objectIDs'') (JArray [])) (\<lambda>ids.
     and_then (slice10 ids) (\<lambda>ids10. Inr (total, ids10)))))))"

text \<open>
  Lines 196-209 without the decorator. \<open>Inl\<close> would be an exception that reaches the
  caller.
\<close>

definition search_artworks_body :: "http \<Rightarrow> ustring \<Rightarrow> py_exn + (json \<times> json)" where
  "search_artworks_body get query =
     (if query = [] then Inr (JInt 0, JArray [])
      else (case search_try get query of
              Inl e \<Rightarrow> Inr (JInt 0, JArray [])
            | Inr r \<Rightarrow> Inr r))"

text \<open>
  Line 195, \<^verbatim>\<open>@st.cache_data\<close>: a stored result is returned without running the body, and
  the result of a body that returned is stored under the query.
\<close>

definition search_artworks ::
  "http \<Rightarrow> (ustring \<rightharpoonup> json \<times> json) \<Rightarrow> ustring \<Rightarrow>
     (py_exn + (json \<times> json)) \<times> (ustring \<rightharpoonup> json \<times> json)" where
  "search_artworks get store query =
     (case store query of
        Some r \<Rightarrow> (Inr r, store)
      | None \<Rightarrow> (case search_artworks_body get query of
                   Inr r \<Rightarrow> (Inr r, store(query \<mapsto> r))
                 | Inl e \<Rightarrow> (Inl e, store)))"

text \<open>The number of object IDs in a result: \<^verbatim>\<open>len\<close> of its second component.\<close>

definition id_count :: "json \<times> json \<Rightarrow> nat option" where
  "id_count r =
     (case snd r of
        JArray xs \<Rightarrow> Some (length xs)
      | JString s \<Rightarrow> Some (length s)
      | _ \<Rightarrow> None)"

text \<open>A store holds only what earlier calls of the function put there.\<close>

definition stored_by_search :: "(ustring \<rightharpoonup> json \<times> json) \<Rightarrow> bool" where
  "stored_by_search store =
     (\<forall>q r. store q = Some r \<longrightarrow> (\<exists>get. search_artworks_body get q = Inr r))"

lemma slice10_count:
  "slice10 v = Inr u \<Longrightarrow> \<exists>n. id_count (t, u) = Some n \<and> n \<le> 10"
  by (auto simp: slice10_def id_count_def split: json.splits)

lemma search_try_count:
  "search_try get q = Inr r \<Longrightarrow> \<exists>n. id_count r = Some n \<and> n \<le> 10"
  by (auto simp: search_try_def and_then_def split: sum.splits dest: slice10_count)

lemma search_body_returns:
  "\<exists>r n. search_artworks_body get q = Inr r \<and> id_count r = Some n \<and> n \<le> 10"
proof (cases "q = []")
  case True
  then show ?thesis by (simp add: search_artworks_body_def id_count_def)
next
  case False
  show ?thesis
  proof (cases "search_try get q")
    case (Inl e)
    with False show ?thesis by (simp add: search_artworks_body_def id_count_def)
  next
    case (Inr r)
    with False search_try_count [OF Inr] show ?thesis
      by (simp add: search_artworks_body_def)
  qed
qed


lemma stored_by_search_update:
  "stored_by_search store \<Longrightarrow> search_artworks_body get q = Inr r \<Longrightarrow>
     stored_by_search (store(q \<mapsto> r))"
  unfolding stored_by_search_def by auto

lemma search_body_empty: "search_artworks_body get [] = Inr (JInt 0, JArray [])"
  by (simp add: search_artworks_body_def)

text \<open>
  C10. For every query, every behaviour of the network and every store that earlier calls
  filled, \<^verbatim>\<open>search_artworks\<close> returns a result (no exception reaches the caller) whose
  second component has at most 10 entries. The result is \<^verbatim>\<open>(0, [])\<close> when the query is
  empty, and when the body runs and anything inside its \<^verbatim>\<open>try\<close> block raises: the request
  itself, the status check, or the parsing and reading of the response.
\<close>

theorem search_artworks_bounded:
  assumes "stored_by_search store"
  shows "\<exists>r n store'.
           search_artworks get store query = (Inr r, store') \<and>
           id_count r = Some n \<and> n \<le> 10 \<and> stored_by_search store' \<and>
           (query = [] \<longrightarrow> r = (JInt 0, JArray [])) \<and>
           (store query = None \<and> (\<exists>e. search_try get query = Inl e)
              \<longrightarrow> r = (JInt 0, JArray [])) \<and>
           (\<forall>e. get (search_url query) = Inl e \<longrightarrow> search_try get query = Inl e) \<and>
           (\<forall>resp e. get (search_url query) = Inr resp \<and>
              (raise_for_status resp = Inl e \<or> json_result resp = Inl e)
              \<longrightarrow> (\<exists>e'. search_try get query = Inl e'))"
proof -
  have req: "\<forall>e. get (search_url query) = Inl e \<longrightarrow> search_try get query = Inl e"
    by (simp add: search_try_def and_then_def)
  have resp: "\<forall>resp e. get (search_url query) = Inr resp \<and>
              (raise_for_status resp = Inl e \<or> json_result resp = Inl e)
              \<longrightarrow> (\<exists>e'. search_try get query = Inl e')"
    by (auto simp: search_try_def and_then_def split: sum.splits)
  show ?thesis
  proof (cases "store query")
    case None
    from search_body_returns [of get query] obtain r n where
      b: "search_artworks_body get query = Inr r" "id_count r = Some n" "n \<le> 10" by blast
    have "search_artworks get store query = (Inr r, store(query \<mapsto> r))"
      using None b(1) by (simp add: search_artworks_def)
    moreover have "stored_by_search (store(query \<mapsto> r))"
      using assms b(1) by (rule stored_by_search_update)
    moreover have "query = [] \<longrightarrow> r = (JInt 0, JArray [])"
      using b(1) by (auto simp: search_artworks_body_def)
    moreover have "(\<exists>e. search_try get query = Inl e) \<longrightarrow> r = (JInt 0, JArray [])"
      using b(1) by (auto simp: search_artworks_body_def split: if_splits)
    ultimately show ?thesis using b(2,3) req resp by blast
  next
    case (Some r)
    with assms obtain get' where g: "search_artworks_body get' query = Inr r"
      unfolding stored_by_search_def by blast
    from search_body_returns [of get' query] g obtain n where
      n: "id_count r = Some n" "n \<le> 10" by auto
    have "search_artworks get store query = (Inr r, store)"
      using Some by (simp add: search_artworks_def)
    moreover have "query = [] \<longrightarrow> r = (JInt 0, JArray [])"
      using g by (auto simp: search_artworks_body_def)
    ultimately show ?thesis using Some n assms req resp by auto
  qed
qed

definition monet_found :: http where
  "monet_found url =
     Inr \<lparr>status_code = 200,
          json_result = Inr (JObject
            [(ascii ''total'', JInt 12),
             (ascii ''objectIDs'', JArray (map JInt [1, 2, 3, 4, 5, 6, 7, 8, 9, 10, 11, 12]))])\<rparr>"

definition server_error :: http where
  "server_error url = Inr \<lparr>status_code = 503, json_result = Inl JSONDecodeError\<rparr>"

theorem search_artworks_bounded_witness:
  "stored_by_search Map.empty \<and>
   fst (search_artworks monet_found Map.empty (ascii ''monet'')) =
     Inr (JInt 12, JArray (map JInt [1, 2, 3, 4, 5, 6, 7, 8, 9, 10])) \<and>
   id_count (JInt 12, JArray (map JInt [1, 2, 3, 4, 5, 6, 7, 8, 9, 10])) = Some 10 \<and>
   fst (search_artworks server_error Map.empty (ascii ''monet'')) = Inr (JInt 0, JArray []) \<and>
   fst (search_artworks monet_found Map.empty []) = Inr (JInt 0, JArray [])"
  using search_artworks_bounded [of Map.empty monet_found "ascii ''monet''"]
  by (simp add: stored_by_search_def search_artworks_def search_artworks_body_def
      search_try_def and_then_def monet_found_def server_error_def raise_for_status_def
      dict_get_def slice10_def id_count_def ascii_def)

section \<open>The museum dashboard: the simulated palette\<close>

text \<open>
  NumPy is outside the program. What \<^verbatim>\<open>simulate_palette_data\<close> uses of it is a parameter:
  the state of the global legacy generator (\<open>'g\<close>), the binary64 numbers (\<open>'f\<close>) and
  \<^item> \<^verbatim>\<open>np.random.seed(n)\<close>, which replaces the global state by one that depends on \<open>n\<close> only;
  \<^item> the bounded draw behind \<^verbatim>\<open>shuffle\<close> (an index between 0 and the bound);
  \<^item> the next sample of \<^verbatim>\<open>rand\<close>;
  \<^item> \<^verbatim>\<open>np.sum\<close> and the division of two numbers.
\<close>

record ('g, 'f) numpy =
  seed :: "nat \<Rightarrow> 'g"
  random_interval :: "'g \<Rightarrow> nat \<Rightarrow> nat \<times> 'g"
  random_sample :: "'g \<Rightarrow> 'f \<times> 'g"
  fsum :: "'f list \<Rightarrow> 'f"
  fdiv :: "'f \<Rightarrow> 'f \<Rightarrow> 'f"

text \<open>\<^verbatim>\<open>x[i], x[j] = x[j], x[i]\<close>\<close>

definition swap :: "'a list \<Rightarrow> nat \<Rightarrow> nat \<Rightarrow> 'a list" where
  "swap xs i j = xs[i := xs ! j, j := xs ! i]"

text \<open>
  The legacy \<^verbatim>\<open>shuffle\<close>: for \<open>i\<close> from the last index down to 1, draw \<open>j\<close> between 0 and
  \<open>i\<close> and exchange the two entries.
\<close>

fun shuffle_down :: "('g, 'f) numpy \<Rightarrow> nat \<Rightarrow> 'a list \<Rightarrow> 'g \<Rightarrow> 'a list \<times> 'g" where
  "shuffle_down np 0 xs g = (xs, g)"
| "shuffle_down np (Suc k) xs g =
     (case random_interval np g (Suc k) of
        (j, g') \<Rightarrow> shuffle_down np k (swap xs (Suc k) j) g')"

text \<open>\<^verbatim>\<open>permutation(n)\<close> shuffles \<^verbatim>\<open>arange(n)\<close>.\<close>

definition permutation :: "('g, 'f) numpy \<Rightarrow> nat \<Rightarrow> 'g \<Rightarrow> nat list \<times> 'g" where
  "permutation np n g = shuffle_down np (n - 1) [0..<n] g"

text \<open>
  \<^verbatim>\<open>choice(a, size, replace=False)\<close>: a \<^verbatim>\<open>ValueError\<close> (\<open>None\<close>) when the sample is larger
  than the population, otherwise the entries at the first \<open>n\<close> indices of a
  permutation.
\<close>

definition choice ::
  "('g, 'f) numpy \<Rightarrow> 'a list \<Rightarrow> nat \<Rightarrow> 'g \<Rightarrow> ('a list \<times> 'g) option" where
  "choice np a n g =
     (if length a < n then None
      else (case permutation np (length a) g of
              (idx, g') \<Rightarrow> Some (map (\<lambda>i. a ! i) (take n idx), g')))"

text \<open>\<^verbatim>\<open>rand(n)\<close>: \<open>n\<close> samples, drawn one after the other.\<close>

fun rand :: "('g, 'f) numpy \<Rightarrow> nat \<Rightarrow> 'g \<Rightarrow> 'f list \<times> 'g" where
  "rand np 0 g = ([], g)"
| "rand np (Suc n) g =
     (case random_sample np g of
        (x, g') \<Rightarrow> (case rand np n g' of (xs, g'') \<Rightarrow> (x # xs, g'')))"

text \<open>Lines 234-236.\<close>

definition hex_options :: "ustring list" where
  "hex_options =
     [ascii ''#A2C4D8'', ascii ''#F2E8D5'', ascii ''#3A5C3C'', ascii ''#F7DC6F'',
      ascii ''#C4B4D8'', ascii ''#5A7B8E'', ascii ''#1D2E40'', ascii ''#111111'',
      ascii ''#F9F9F9'', ascii ''#E74C3C'', ascii ''#F1C40F'', ascii ''#3498DB'',
      ascii ''#C4A86A'']"

text \<open>
  The table: one list per column. \<^verbatim>\<open>pd.DataFrame(data)\<close> raises \<^verbatim>\<open>ValueError\<close> (\<open>None\<close>) when
  the columns differ in length.
\<close>

record 'f palette =
  Artist :: "ustring list"
  Artwork :: "ustring list"
  Color_HEX :: "ustring list"
  Frequency :: "'f list"
  Artwork_ID :: "int list"

definition DataFrame :: "'f palette \<Rightarrow> 'f palette option" where
  "DataFrame d =
     (if length (Artwork d) = length (Artist d) \<and> length (Color_HEX d) = length (Artist d) \<and>
         length (Frequency d) = length (Artist d) \<and> length (Artwork_ID d) = length (Artist d)
      then Some d else None)"

text \<open>
  Lines 230-250. The function takes the state of the global generator as it finds it
  and gives back the table with the state it leaves. Python's \<^verbatim>\<open>%\<close> with a positive
  modulus is the floored remainder, as \<open>mod\<close> on \<open>int\<close> is.
\<close>

definition simulate_palette_data ::
  "('g, 'f) numpy \<Rightarrow> 'g \<Rightarrow> int \<Rightarrow> ustring \<Rightarrow> ustring \<Rightarrow> ('f palette \<times> 'g) option" where
  "simulate_palette_data np g0 object_id title artist =
     (let g1 = seed np (nat (object_id mod 100))
      in case choice np hex_options 5 g1 of
           None \<Rightarrow> None
         | Some (selected_hex, g2) \<Rightarrow>
             (case rand np 5 g2 of
                (frequencies, g3) \<Rightarrow>
                  (case DataFrame
                          \<lparr>Artist = replicate 5 artist,
                           Artwork = replicate 5 title,
                           Color_HEX = selected_hex,
                           Frequency = map (\<lambda>x. fdiv np x (fsum np frequencies)) frequencies,
                           Artwork_ID = replicate 5 object_id\<rparr> of
                     None \<Rightarrow> None
                   | Some df \<Rightarrow> Some (df, g3))))"

lemma length_swap [simp]: "length (swap xs i j) = length xs"
  by (simp add: swap_def)

lemma length_shuffle_down [simp]: "length (fst (shuffle_down np k xs g)) = length xs"
  by (induction k arbitrary: xs g) (auto split: prod.splits)

lemma length_permutation [simp]: "length (fst (permutation np n g)) = n"
  by (simp add: permutation_def)

lemma length_rand [simp]: "length (fst (rand np n g)) = n"
proof (induction n arbitrary: g)
  case 0
  then show ?case by simp
next
  case (Suc n)
  obtain x g' where r: "random_sample np g = (x, g')" by (cases "random_sample np g")
  obtain xs g'' where s: "rand np n g' = (xs, g'')" by (cases "rand np n g'")
  from Suc [of g'] s have "length xs = n" by simp
  with r s show ?case by simp
qed

lemma length_hex_options [simp]: "length hex_options = 13"
  by (simp add: hex_options_def)

lemma set_swap_in:
  "i < length xs \<Longrightarrow> j < length xs \<Longrightarrow> set (swap xs i j) = set xs"
  unfolding swap_def by simp

lemma distinct_swap_in:
  "i < length xs \<Longrightarrow> j < length xs \<Longrightarrow> distinct (swap xs i j) = distinct xs"
  unfolding swap_def by simp

lemma shuffle_down_perm:
  assumes "\<forall>g i. fst (random_interval np g i) \<le> i" "k < length xs"
  shows "set (fst (shuffle_down np k xs g)) = set xs \<and>
         distinct (fst (shuffle_down np k xs g)) = distinct xs"
  using assms(2)
proof (induction k arbitrary: xs g)
  case 0
  then show ?case by simp
next
  case (Suc k)
  obtain j g' where r: "random_interval np g (Suc k) = (j, g')"
    by (cases "random_interval np g (Suc k)")
  with assms(1) have "j \<le> Suc k" by (metis fst_conv)
  with Suc.prems have j: "j < length xs" by simp
  have "k < length (swap xs (Suc k) j)" using Suc.prems by simp
  from Suc.IH [OF this, of g'] r set_swap_in [OF Suc.prems j] distinct_swap_in [OF Suc.prems j]
  show ?case by simp
qed

lemma permutation_perm:
  assumes "\<forall>g i. fst (random_interval np g i) \<le> i"
  shows "set (fst (permutation np n g)) = {0..<n} \<and> distinct (fst (permutation np n g))"
proof (cases n)
  case 0
  then show ?thesis by (simp add: permutation_def)
next
  case (Suc m)
  then have "n - 1 < length [0..<n]" by simp
  from shuffle_down_perm [OF assms this, of g] show ?thesis by (simp add: permutation_def)
qed

lemma distinct_hex_options: "distinct hex_options"
  by (simp add: hex_options_def ascii_def)

lemma choice_some:
  "n \<le> length a \<Longrightarrow>
     choice np a n g =
       Some (map (\<lambda>i. a ! i) (take n (fst (permutation np (length a) g))),
             snd (permutation np (length a) g))"
  by (simp add: choice_def split: prod.splits)

lemma choice_distinct:
  assumes "\<forall>g i. fst (random_interval np g i) \<le> i" "distinct a" "n \<le> length a"
  shows "distinct (map (\<lambda>i. a ! i) (take n (fst (permutation np (length a) g)))) \<and>
         set (map (\<lambda>i. a ! i) (take n (fst (permutation np (length a) g)))) \<subseteq> set a"
proof -
  let ?p = "fst (permutation np (length a) g)"
  from permutation_perm [OF assms(1), of "length a" g]
  have p: "set ?p = {0..<length a}" "distinct ?p" by simp_all
  have sub: "set (take n ?p) \<subseteq> {0..<length a}" using p(1) set_take_subset by fastforce
  have d: "distinct (take n ?p)" using p(2) by simp
  have "inj_on (\<lambda>i. a ! i) (set (take n ?p))"
  proof (rule inj_onI)
    fix x y
    assume "x \<in> set (take n ?p)" "y \<in> set (take n ?p)" "a ! x = a ! y"
    with sub have "x < length a" "y < length a" "a ! x = a ! y" by auto
    with assms(2) show "x = y" by (simp add: nth_eq_iff_index_eq)
  qed
  with d have "distinct (map (\<lambda>i. a ! i) (take n ?p))" by (simp add: distinct_map)
  moreover have "set (map (\<lambda>i. a ! i) (take n ?p)) \<subseteq> set a"
    using sub by auto
  ultimately show ?thesis by simp
qed

lemma simulate_value:
  "simulate_palette_data np g0 object_id title artist =
     Some (\<lparr>Artist = replicate 5 artist,
            Artwork = replicate 5 title,
            Color_HEX = map (\<lambda>i. hex_options ! i)
              (take 5 (fst (permutation np 13 (seed np (nat (object_id mod 100)))))),
            Frequency =
              map (\<lambda>x. fdiv np x
                     (fsum np (fst (rand np 5 (snd (permutation np 13
                        (seed np (nat (object_id mod 100)))))))))
                (fst (rand np 5 (snd (permutation np 13
                   (seed np (nat (object_id mod 100))))))),
            Artwork_ID = replicate 5 object_id\<rparr>,
           snd (rand np 5 (snd (permutation np 13 (seed np (nat (object_id mod 100)))))))"
proof -
  let ?g1 = "seed np (nat (object_id mod 100))"
  let ?p = "permutation np 13 ?g1"
  let ?r = "rand np 5 (snd ?p)"
  have c: "choice np hex_options 5 ?g1 =
             Some (map (\<lambda>i. hex_options ! i) (take 5 (fst ?p)), snd ?p)"
    using choice_some [of 5 hex_options np ?g1] by simp
  have l: "length (take 5 (fst ?p)) = 5" "length (fst ?r) = 5" by simp_all
  obtain fs g3 where r: "?r = (fs, g3)" by (cases ?r)
  with l have "length fs = 5" by simp
  then show ?thesis
    unfolding simulate_palette_data_def Let_def c
    using r l by (simp add: DataFrame_def)
qed

section \<open>Claims about the simulated palette\<close>

text \<open>
  C7. Whatever state the generator is in, \<^verbatim>\<open>simulate_palette_data\<close> returns a table. Its
  generator is seeded with the object id modulo 100 (a number from 0 to 99); its five
  colours are the options at the first five indices of the permutation drawn from that
  seed; its five frequencies are the five samples drawn next, each divided by their
  sum. When the bounded draw stays within its bound, the five colours are distinct
  members of the thirteen options.
\<close>

theorem palette_seeded_normalised:
  "\<exists>df g'. simulate_palette_data np g0 object_id title artist = Some (df, g') \<and>
     (let g1 = seed np (nat (object_id mod 100));
          p = permutation np (length hex_options) g1;
          r = rand np 5 (snd p)
      in 0 \<le> object_id mod 100 \<and> object_id mod 100 < 100 \<and>
         Color_HEX df = map (\<lambda>i. hex_options ! i) (take 5 (fst p)) \<and>
         length (Color_HEX df) = 5 \<and>
         length (fst r) = 5 \<and>
         Frequency df = map (\<lambda>x. fdiv np x (fsum np (fst r))) (fst r) \<and>
         length (Frequency df) = 5 \<and>
         g' = snd r \<and>
         ((\<forall>g i. fst (random_interval np g i) \<le> i) \<longrightarrow>
            distinct (Color_HEX df) \<and> set (Color_HEX df) \<subseteq> set hex_options))"
proof -
  let ?g1 = "seed np (nat (object_id mod 100))"
  let ?p = "permutation np (length hex_options) ?g1"
  have "(\<forall>g i. fst (random_interval np g i) \<le> i) \<longrightarrow>
          distinct (map (\<lambda>i. hex_options ! i) (take 5 (fst ?p))) \<and>
          set (map (\<lambda>i. hex_options ! i) (take 5 (fst ?p))) \<subseteq> set hex_options"
    using choice_distinct [of np hex_options 5 ?g1] distinct_hex_options by simp
  then show ?thesis
    unfolding simulate_value Let_def by simp
qed

text \<open>A small generator for concrete runs: a counter.\<close>

definition counter_numpy :: "(nat, real) numpy" where
  "counter_numpy =
     \<lparr>seed = (\<lambda>n. n),
      random_interval = (\<lambda>g i. (g mod Suc i, Suc g)),
      random_sample = (\<lambda>g. (real (g mod 4 + 1), Suc g)),
      fsum = sum_list,
      fdiv = (/)\<rparr>"

lemma counter_interval: "\<forall>g i. fst (random_interval counter_numpy g i) \<le> i"
  by (simp add: counter_numpy_def)

lemma counter_permutation:
  "permutation counter_numpy 13 7 = ([1, 3, 5, 12, 10, 11, 6, 4, 2, 0, 9, 8, 7], 19)"
  by code_simp

lemma counter_rand: "fst (rand counter_numpy 5 19) = [4, 1, 2, 3, 4] \<and> snd (rand counter_numpy 5 19) = 24"
  by code_simp

lemma counter_fields:
  "seed counter_numpy n = n"
  "fsum counter_numpy = sum_list"
  "fdiv counter_numpy = (/)"
  by (simp_all add: counter_numpy_def)

theorem palette_seeded_normalised_witness:
  "(\<forall>g i. fst (random_interval counter_numpy g i) \<le> i) \<and>
   (\<exists>df g'. simulate_palette_data counter_numpy 0 436507 (ascii ''Water Lilies'')
               (ascii ''Claude Monet'') = Some (df, g') \<and>
      Color_HEX df =
        [ascii ''#F2E8D5'', ascii ''#F7DC6F'', ascii ''#5A7B8E'', ascii ''#C4A86A'',
         ascii ''#F1C40F''] \<and>
      distinct (Color_HEX df) \<and>
      Frequency df = [4 / 14, 1 / 14, 2 / 14, 3 / 14, 4 / 14] \<and>
      sum_list (Frequency df) = 1 \<and>
      g' = 24)"
proof -
  have m: "nat ((436507 :: int) mod 100) = 7" by simp
  from palette_seeded_normalised [of counter_numpy 0 436507 "ascii ''Water Lilies''"
      "ascii ''Claude Monet''"]
  obtain df g' where
    s: "simulate_palette_data counter_numpy 0 436507 (ascii ''Water Lilies'')
          (ascii ''Claude Monet'') = Some (df, g')" and
    c: "Color_HEX df = map (\<lambda>i. hex_options ! i) (take 5 (fst (permutation counter_numpy 13 7)))" and
    f: "Frequency df = map (\<lambda>x. x / sum_list (fst (rand counter_numpy 5 (snd (permutation counter_numpy 13 7)))))
          (fst (rand counter_numpy 5 (snd (permutation counter_numpy 13 7))))" and
    g: "g' = snd (rand counter_numpy 5 (snd (permutation counter_numpy 13 7)))" and
    d: "(\<forall>g i. fst (random_interval counter_numpy g i) \<le> i) \<longrightarrow> distinct (Color_HEX df)"
    unfolding Let_def m counter_fields length_hex_options by blast
  have c': "Color_HEX df =
        [ascii ''#F2E8D5'', ascii ''#F7DC6F'', ascii ''#5A7B8E'', ascii ''#C4A86A'',
         ascii ''#F1C40F'']"
    unfolding c counter_permutation by (simp add: hex_options_def)
  have f': "Frequency df = [4 / 14, 1 / 14, 2 / 14, 3 / 14, 4 / 14]"
    unfolding f counter_permutation using counter_rand by simp
  have "sum_list (Frequency df) = 1" unfolding f' by simp
  moreover have "g' = 24" unfolding g counter_permutation using counter_rand by simp
  moreover have "distinct (Color_HEX df)" using d counter_interval by blast
  ultimately show ?thesis using counter_interval s c' f' by blast
qed

text \<open>
  C9. The table does not depend on the state the generator was in: the same object id,
  title and artist always give the same table. Two object ids congruent modulo 100 get
  the same five colours and the same five frequencies (and leave the generator in the
  same state), whatever the titles and artists; the two tables differ in the three
  label columns only, which repeat the artist, the title and the id five times.
\<close>

theorem palette_depends_on_id_mod_100:
  assumes "a mod 100 = b mod 100"
  shows "\<exists>dfa dfb ga gb.
           simulate_palette_data np g a title artist = Some (dfa, ga) \<and>
           simulate_palette_data np g' b title' artist' = Some (dfb, gb) \<and>
           simulate_palette_data np g' a title artist = Some (dfa, ga) \<and>
           Color_HEX dfa = Color_HEX dfb \<and> Frequency dfa = Frequency dfb \<and> ga = gb \<and>
           length (Color_HEX dfa) = 5 \<and> length (Frequency dfa) = 5 \<and>
           Artist dfa = replicate 5 artist \<and> Artwork dfa = replicate 5 title \<and>
           Artwork_ID dfa = replicate 5 a \<and>
           Artist dfb = replicate 5 artist' \<and> Artwork dfb = replicate 5 title' \<and>
           Artwork_ID dfb = replicate 5 b"
  unfolding simulate_value using assms by simp

theorem palette_depends_on_id_mod_100_witness:
  "(436535 :: int) mod 100 = 35 mod 100 \<and>
   (\<exists>dfa dfb ga gb.
      simulate_palette_data counter_numpy 0 436535 (ascii ''Water Lilies'')
        (ascii ''Claude Monet'') = Some (dfa, ga) \<and>
      simulate_palette_data counter_numpy 77 35 (ascii ''Untitled'') (ascii ''Unknown'')
        = Some (dfb, gb) \<and>
      Color_HEX dfa = Color_HEX dfb \<and> Frequency dfa = Frequency dfb \<and>
      Artwork_ID dfa = replicate 5 436535 \<and> Artwork_ID dfb = replicate 5 35 \<and>
      Artwork dfa \<noteq> Artwork dfb)"
proof -
  have h: "(436535 :: int) mod 100 = 35 mod 100" by simp
  from palette_depends_on_id_mod_100 [OF h, of counter_numpy 0 "ascii ''Water Lilies''"
      "ascii ''Claude Monet''" 77 "ascii ''Untitled''" "ascii ''Unknown''"]
  obtain dfa dfb ga gb where
    p: "simulate_palette_data counter_numpy 0 436535 (ascii ''Water Lilies'')
          (ascii ''Claude Monet'') = Some (dfa, ga)"
       "simulate_palette_data counter_numpy 77 35 (ascii ''Untitled'') (ascii ''Unknown'')
          = Some (dfb, gb)"
       "Color_HEX dfa = Color_HEX dfb" "Frequency dfa = Frequency dfb"
       "Artwork_ID dfa = replicate 5 436535" "Artwork_ID dfb = replicate 5 35"
       "Artwork dfa = replicate 5 (ascii ''Water Lilies'')"
       "Artwork dfb = replicate 5 (ascii ''Untitled'')"
    by blast
  have "Artwork dfa \<noteq> Artwork dfb"
    unfolding p(7,8) by (simp add: ascii_def)
  with h p show ?thesis by blast
qed

end
